theory Spec2Isabelle
  imports Main
begin

section \<open>Strings of the host language\<close>

text \<open>
  The messaging component (\<^verbatim>\<open>Messages\<close> in \<^verbatim>\<open>src/components/Explore.tsx\<close>) works on
  JavaScript strings. A string is modelled as a \<^typ>\<open>string\<close> whose characters are the
  code units below 256; user ids, chat ids and push keys are strings too.
\<close>

type_synonym uid = string

type_synonym chat_id = string

text \<open>\<^verbatim>\<open>String.prototype.trim\<close>: strips white space and line terminators at both ends
  (tab, line feed, vertical tab, form feed, carriage return, space, no-break space).\<close>

definition isWhiteSpace :: "char \<Rightarrow> bool" where
  "isWhiteSpace c = (of_char c \<in> {9, 10, 11, 12, 13, 32, 160 :: nat})"

definition trim :: "string \<Rightarrow> string" where
  "trim s = rev (dropWhile isWhiteSpace (rev (dropWhile isWhiteSpace s)))"

text \<open>\<^verbatim>\<open>String.prototype.toLowerCase\<close> on the code units below 256: the letters A-Z and
  the upper-case letters of the Latin-1 block move up by 32.\<close>

definition toLowerChar :: "char \<Rightarrow> char" where
  "toLowerChar c =
     (let n = (of_char c :: nat)
      in if (65 \<le> n \<and> n \<le> 90) \<or> (192 \<le> n \<and> n \<le> 222 \<and> n \<noteq> 215)
         then char_of (n + 32) else c)"

definition toLowerCase :: "string \<Rightarrow> string" where
  "toLowerCase s = map toLowerChar s"

text \<open>\<^verbatim>\<open>s.startsWith(p)\<close> and \<^verbatim>\<open>s.includes(p)\<close>.\<close>

fun startsWith :: "string \<Rightarrow> string \<Rightarrow> bool" where
  "startsWith s [] = True"
| "startsWith [] (p # ps) = False"
| "startsWith (c # cs) (p # ps) = (c = p \<and> startsWith cs ps)"

fun includes_str :: "string \<Rightarrow> string \<Rightarrow> bool" where
  "includes_str [] p = (p = [])"
| "includes_str (c # cs) p = (startsWith (c # cs) p \<or> includes_str cs p)"

text \<open>Decimal rendering of a number inside a template literal.\<close>

definition digit :: "nat \<Rightarrow> char" where
  "digit n = ''0123456789'' ! (n mod 10)"

fun decimal :: "nat \<Rightarrow> string" where
  "decimal n = (if n < 10 then [digit n] else decimal (n div 10) @ [digit n])"

definition showInt :: "int \<Rightarrow> string" where
  "showInt i = (if i < 0 then CHR ''-'' # decimal (nat (- i)) else decimal (nat i))"

text \<open>The default comparison of \<^verbatim>\<open>Array.prototype.sort\<close> on strings: code unit by code
  unit, a proper prefix first.\<close>

fun str_le :: "string \<Rightarrow> string \<Rightarrow> bool" where
  "str_le [] t = True"
| "str_le (c # cs) [] = False"
| "str_le (c # cs) (d # ds) =
     ((of_char c :: nat) < of_char d \<or> (c = d \<and> str_le cs ds))"

text \<open>\<^verbatim>\<open>Array.prototype.sort\<close> is stable; it is modelled as the stable insertion sort. The
  comparator returns a number, negative when its first argument goes first.\<close>

fun insert_by :: "('a \<Rightarrow> 'a \<Rightarrow> int) \<Rightarrow> 'a \<Rightarrow> 'a list \<Rightarrow> 'a list" where
  "insert_by cmp x [] = [x]"
| "insert_by cmp x (y # ys) =
     (if cmp x y \<le> 0 then x # y # ys else y # insert_by cmp x ys)"

fun sort_by :: "('a \<Rightarrow> 'a \<Rightarrow> int) \<Rightarrow> 'a list \<Rightarrow> 'a list" where
  "sort_by cmp [] = []"
| "sort_by cmp (x # xs) = insert_by cmp x (sort_by cmp xs)"

definition default_compare :: "string \<Rightarrow> string \<Rightarrow> int" where
  "default_compare a b = (if a = b then 0 else if str_le a b then - 1 else 1)"

text \<open>\<^verbatim>\<open>Array.prototype.join\<close>.\<close>

fun join :: "string \<Rightarrow> string list \<Rightarrow> string" where
  "join sep [] = []"
| "join sep [x] = x"
| "join sep (x # y # ys) = x @ sep @ join sep (y # ys)"

text \<open>Writing a key of an insertion-ordered table (\<^verbatim>\<open>Map.prototype.set\<close>, a property of
  an object): a known key keeps its place, a new key goes last.\<close>

fun map_set :: "'k \<Rightarrow> 'v \<Rightarrow> ('k \<times> 'v) list \<Rightarrow> ('k \<times> 'v) list" where
  "map_set k v [] = [(k, v)]"
| "map_set k v ((k', v') # r) = (if k = k' then (k, v) # r else (k', v') # map_set k v r)"

section \<open>Data model\<close>

text \<open>Instants (\<^verbatim>\<open>Date\<close>, ISO strings, server time stamps) are milliseconds since the
  epoch.\<close>

type_synonym instant = int

text \<open>The fields of a user profile that the chat code reads (\<^verbatim>\<open>User\<close> in the types
  module, and the nodes under \<^verbatim>\<open>users/\<close> of the real-time store). A user without a
  photo has \<^verbatim>\<open>photoURL: null\<close> in the profile of the session; the real-time store keeps
  no \<^verbatim>\<open>null\<close>, so the node under \<^verbatim>\<open>users/\<close> has no such child and reading it gives
  \<^verbatim>\<open>undefined\<close>. Both are \<open>None\<close>.\<close>

record User =
  displayName :: string
  photoURL :: "string option"

text \<open>A presence node under \<^verbatim>\<open>status/<uid>\<close>. A child can be written on its own, so
  each child may be absent; an absent or unreadable \<^verbatim>\<open>lastSeen\<close> is \<open>None\<close>.\<close>

record presence =
  isOnline :: "bool option"
  lastSeen :: "instant option"
  uid_of :: "uid option"

text \<open>The client's derived presence table (\<^verbatim>\<open>OnlineStatus\<close>); \<open>None\<close> as date is the
  invalid date.\<close>

record online_entry =
  os_isOnline :: bool
  os_lastSeen :: "instant option"

datatype chat_type = individual | group

record details =
  dname :: string
  avatar :: "string option"

record last_message =
  lm_content :: string
  lm_timestamp :: instant
  lm_senderId :: uid
  lm_senderName :: string

datatype message_type = text_message | image_message | file_message

record message =
  senderId :: uid
  senderName :: string
  senderAvatar :: "string option"
  content :: string
  timestamp :: instant
  mtype :: message_type
  chatId :: chat_id

text \<open>A chat node under \<^verbatim>\<open>chats/<id>\<close>. The interface \<^verbatim>\<open>Chat\<close> is the node together
  with its key. Writing a child under a node that does not exist creates the node with
  that child only, so every scalar child is optional. The store keeps no empty list: an
  admin list written as \<open>[]\<close> is read back as absent, and the code treats the two alike
  (\<^verbatim>\<open>chat.admins?.includes\<close>, \<^verbatim>\<open>chat.admins || []\<close>).\<close>

record chat_node =
  ctype :: "chat_type option"
  name :: "string option"
  participants :: "uid list"
  participantDetails :: "uid \<rightharpoonup> details"
  admins :: "uid list option"
  createdBy :: "uid option"
  lastMessage :: "last_message option"
  createdAt :: "instant option"
  updatedAt :: "instant option"

record Chat = chat_node +
  id :: chat_id

definition empty_node :: chat_node where
  "empty_node = \<lparr> ctype = None, name = None, participants = [], participantDetails = Map.empty,
     admins = None, createdBy = None, lastMessage = None, createdAt = None, updatedAt = None \<rparr>"

text \<open>The real-time tree store, one field per top-level path. The presence nodes are a
  table from user id to node. A message log is the list
  of its children in key order (no children: no log); a membership marker
  \<^verbatim>\<open>userChats/<uid>/<chatId> = true\<close> is membership in a set.\<close>

record store =
  db_status :: "(uid \<times> presence) list"
  db_users :: "uid \<rightharpoonup> User"
  db_chats :: "chat_id \<rightharpoonup> chat_node"
  db_messages :: "chat_id \<Rightarrow> (string \<times> message) list"
  db_userChats :: "uid \<Rightarrow> chat_id set"

text \<open>The component state the operations read and set.\<close>

record client =
  currentUser :: "uid option"
  userData :: "User option"
  chats :: "Chat list"
  activeChat :: "Chat option"
  newMessage :: string
  editingGroupName :: string
  groupName :: string
  selectedUsers :: "uid list"

datatype ntype = success | error | info | warning

record notification =
  n_type :: ntype
  title :: string
  message_of :: string

text \<open>How a handler ends: a bare \<^verbatim>\<open>return\<close>, the end of its body without a
  notification, or a notification.\<close>

datatype outcome = Returned | Completed | Notified notification

definition notify :: "ntype \<Rightarrow> string \<Rightarrow> string \<Rightarrow> outcome" where
  "notify t ti m = Notified \<lparr> n_type = t, title = ti, message_of = m \<rparr>"

section \<open>Store primitives\<close>

text \<open>\<^verbatim>\<open>set\<close>, \<^verbatim>\<open>update\<close>, \<^verbatim>\<open>remove\<close> and \<^verbatim>\<open>push\<close> of the store's client library, at the
  paths the component uses.\<close>

type_synonym db_write = "store \<Rightarrow> store"

definition set_status :: "uid \<Rightarrow> presence \<Rightarrow> db_write" where
  "set_status u p s = s\<lparr> db_status := map_set u p (db_status s) \<rparr>"

definition set_status_isOnline :: "uid \<Rightarrow> bool \<Rightarrow> db_write" where
  "set_status_isOnline u b s =
     s\<lparr> db_status := map_set u
          (case map_of (db_status s) u of
             None \<Rightarrow> \<lparr> isOnline = Some b, lastSeen = None, uid_of = None \<rparr>
           | Some p \<Rightarrow> p\<lparr> isOnline := Some b \<rparr>)
          (db_status s) \<rparr>"

definition set_chat :: "chat_id \<Rightarrow> chat_node \<Rightarrow> db_write" where
  "set_chat c n s = s\<lparr> db_chats := (db_chats s)(c \<mapsto> n) \<rparr>"

definition update_chat :: "chat_id \<Rightarrow> (chat_node \<Rightarrow> chat_node) \<Rightarrow> db_write" where
  "update_chat c f s =
     s\<lparr> db_chats := (db_chats s)(c \<mapsto>
          f (case db_chats s c of None \<Rightarrow> empty_node | Some n \<Rightarrow> n)) \<rparr>"

definition remove_chat :: "chat_id \<Rightarrow> db_write" where
  "remove_chat c s = s\<lparr> db_chats := (db_chats s)(c := None) \<rparr>"

definition remove_messages :: "chat_id \<Rightarrow> db_write" where
  "remove_messages c s = s\<lparr> db_messages := (db_messages s)(c := []) \<rparr>"

definition push_message :: "chat_id \<Rightarrow> string \<Rightarrow> message \<Rightarrow> db_write" where
  "push_message c k m s = s\<lparr> db_messages := (db_messages s)(c := db_messages s c @ [(k, m)]) \<rparr>"

definition set_userChat :: "uid \<Rightarrow> chat_id \<Rightarrow> db_write" where
  "set_userChat u c s = s\<lparr> db_userChats := (db_userChats s)(u := insert c (db_userChats s u)) \<rparr>"

definition remove_userChat :: "uid \<Rightarrow> chat_id \<Rightarrow> db_write" where
  "remove_userChat u c s = s\<lparr> db_userChats := (db_userChats s)(u := db_userChats s u - {c}) \<rparr>"

text \<open>The awaited requests of one handler run in order inside its \<^verbatim>\<open>try\<close> block. The
  backend may reject a request; \<open>ok i\<close> tells whether the \<open>i\<close>-th awaited request of the
  call is accepted. The first rejection throws: the writes before it stay, the rest is
  skipped, and the \<^verbatim>\<open>catch\<close> branch runs.\<close>

fun run_writes :: "(nat \<Rightarrow> bool) \<Rightarrow> nat \<Rightarrow> db_write list \<Rightarrow> store \<Rightarrow> store \<times> bool" where
  "run_writes ok i [] s = (s, True)"
| "run_writes ok i (w # ws) s = (if ok i then run_writes ok (Suc i) ws (w s) else (s, False))"

section \<open>Presence tracker\<close>

text \<open>\<^verbatim>\<open>updateStatus\<close>: the whole presence node is written, fire and forget.\<close>

definition updateStatus :: "instant \<Rightarrow> uid \<Rightarrow> bool \<Rightarrow> db_write" where
  "updateStatus now u b =
     set_status u \<lparr> isOnline = Some b, lastSeen = Some now, uid_of = Some u \<rparr>"

text \<open>The events of the presence effect for a signed-in user: the effect starts, the
  listener on \<^verbatim>\<open>.info/connected\<close> delivers a value, the 30 second timer fires, the effect
  is cleaned up.\<close>

datatype presence_event = Mount | Connected bool | Heartbeat | Unmount

fun presence_step :: "instant \<Rightarrow> uid \<Rightarrow> presence_event \<Rightarrow> db_write" where
  "presence_step now u Mount s = updateStatus now u True s"
| "presence_step now u (Connected v) s =
     (if v then set_status_isOnline u False (updateStatus now u True s) else s)"
| "presence_step now u Heartbeat s = updateStatus now u True s"
| "presence_step now u Unmount s = updateStatus now u False s"

text \<open>The listener on \<^verbatim>\<open>status\<close>: the derived flag of one node, and the table built from a
  snapshot (an empty snapshot leaves the table as it was).\<close>

definition effective_online :: "instant \<Rightarrow> presence \<Rightarrow> online_entry" where
  "effective_online now p =
     \<lparr> os_isOnline = (isOnline p = Some True \<and>
                      (case lastSeen p of None \<Rightarrow> False | Some t \<Rightarrow> now - t < 120000)),
       os_lastSeen = lastSeen p \<rparr>"

definition onStatusSnapshot ::
  "instant \<Rightarrow> (uid \<times> presence) list \<Rightarrow> (uid \<times> online_entry) list \<Rightarrow> (uid \<times> online_entry) list" where
  "onStatusSnapshot now statusData onlineStatus =
     (if statusData = [] then onlineStatus
      else foldl (\<lambda>onlineStatusMap (userId, userStatus).
                    map_set userId (effective_online now userStatus) onlineStatusMap)
             [] statusData)"

definition formatLastSeen :: "instant \<Rightarrow> instant option \<Rightarrow> string" where
  "formatLastSeen now date =
     (case date of
        None \<Rightarrow> ''NaNd ago''
      | Some t \<Rightarrow>
          (let diffInMinutes = (now - t) div 60000
           in if diffInMinutes < 1 then ''Just now''
              else if diffInMinutes < 60 then showInt diffInMinutes @ ''m ago''
              else if diffInMinutes < 1440 then showInt (diffInMinutes div 60) @ ''h ago''
              else showInt (diffInMinutes div 1440) @ ''d ago''))"

definition getOnlineStatus :: "instant \<Rightarrow> (uid \<times> online_entry) list \<Rightarrow> uid \<Rightarrow> bool \<times> string" where
  "getOnlineStatus now onlineStatus userId =
     (case map_of onlineStatus userId of
        None \<Rightarrow> (False, ''Unknown'')
      | Some st \<Rightarrow>
          (os_isOnline st,
           if os_isOnline st then ''Online'' else formatLastSeen now (os_lastSeen st)))"

section \<open>Chat lifecycle\<close>

text \<open>\<^verbatim>\<open>chat.admins?.includes(u)\<close>: a chat without an admin list has no admin.\<close>

definition is_admin :: "'a chat_node_scheme \<Rightarrow> uid \<Rightarrow> bool" where
  "is_admin chat u = (case admins chat of None \<Rightarrow> False | Some a \<Rightarrow> u \<in> set a)"

text \<open>\<^verbatim>\<open>if (activeChat?.id === chatId) setActiveChat(null)\<close>.\<close>

definition clear_active :: "chat_id \<Rightarrow> client \<Rightarrow> client" where
  "clear_active c cl =
     (case activeChat cl of
        None \<Rightarrow> cl
      | Some ac \<Rightarrow> if id ac = c then cl\<lparr> activeChat := None \<rparr> else cl)"

text \<open>The id of an individual chat: the two user ids, sorted and joined.\<close>

definition individual_chat_id :: "uid \<Rightarrow> uid \<Rightarrow> chat_id" where
  "individual_chat_id me other = join ''_'' (sort_by default_compare [me, other])"

text \<open>\<^verbatim>\<open>createOrGetIndividualChat\<close>. Both time stamps of the new record are taken in the
  same step and are one instant.\<close>

definition createOrGetIndividualChat ::
  "(nat \<Rightarrow> bool) \<Rightarrow> instant \<Rightarrow> uid \<Rightarrow> User \<Rightarrow> client \<Rightarrow> store \<Rightarrow> store \<times> client \<times> outcome" where
  "createOrGetIndividualChat ok now otherUserId otherUserData cl s =
     (case (currentUser cl, userData cl) of
        (Some me, Some ud) \<Rightarrow>
          (case find (\<lambda>chat. ctype chat = Some individual \<and> otherUserId \<in> set (participants chat))
                  (chats cl) of
             Some existingChat \<Rightarrow> (s, cl\<lparr> activeChat := Some existingChat \<rparr>, Returned)
           | None \<Rightarrow>
               (let newId = individual_chat_id me otherUserId;
                    newChat = \<lparr> ctype = Some individual, name = None,
                      participants = [me, otherUserId],
                      participantDetails =
                        [me \<mapsto> \<lparr> dname = displayName ud, avatar = photoURL ud \<rparr>,
                         otherUserId \<mapsto> \<lparr> dname = displayName otherUserData,
                                          avatar = photoURL otherUserData \<rparr>],
                      admins = None, createdBy = None, lastMessage = None,
                      createdAt = Some now, updatedAt = Some now \<rparr>
                in case run_writes ok 0
                          [set_chat newId newChat, set_userChat me newId,
                           set_userChat otherUserId newId] s of
                     (s', True) \<Rightarrow>
                       (s', cl, notify success ''Chat Created''
                                  (''Started conversation with '' @ displayName otherUserData))
                   | (s', False) \<Rightarrow> (s', cl, notify error ''Error'' ''Failed to create chat'')))
      | _ \<Rightarrow> (s, cl, Returned))"




text \<open>\<^verbatim>\<open>deleteChat\<close>. The other participant is the first one that is not the caller; an
  empty id counts as none (\<^verbatim>\<open>if (otherUser)\<close>).\<close>

definition deleteChat_writes :: "uid \<Rightarrow> chat_id \<Rightarrow> Chat list \<Rightarrow> db_write list" where
  "deleteChat_writes me c cs =
     remove_userChat me c #
     (case find (\<lambda>chat. id chat = c) cs of
        None \<Rightarrow> []
      | Some chat \<Rightarrow>
          if ctype chat = Some individual
          then (case find (\<lambda>p. p \<noteq> me) (participants chat) of
                  None \<Rightarrow> []
                | Some otherUser \<Rightarrow> if otherUser \<noteq> [] then [remove_userChat otherUser c] else [])
               @ [remove_chat c, remove_messages c]
          else [])"

definition deleteChat ::
  "(nat \<Rightarrow> bool) \<Rightarrow> chat_id \<Rightarrow> client \<Rightarrow> store \<Rightarrow> store \<times> client \<times> outcome" where
  "deleteChat ok c cl s =
     (case currentUser cl of
        None \<Rightarrow> (s, cl, Returned)
      | Some me \<Rightarrow>
          (case run_writes ok 0 (deleteChat_writes me c (chats cl)) s of
             (s', True) \<Rightarrow>
               (s', clear_active c cl,
                notify success ''Chat Deleted'' ''Chat has been deleted successfully'')
           | (s', False) \<Rightarrow> (s', cl, notify error ''Error'' ''Failed to delete chat'')))"





text \<open>\<^verbatim>\<open>toggleAdmin\<close>. When the target is promoted, \<^verbatim>\<open>push\<close> extends the admin list of
  the active chat in place, before the write is awaited.\<close>

definition toggleAdmin ::
  "(nat \<Rightarrow> bool) \<Rightarrow> instant \<Rightarrow> uid \<Rightarrow> client \<Rightarrow> store \<Rightarrow> store \<times> client \<times> outcome" where
  "toggleAdmin ok now userId cl s =
     (case (activeChat cl, currentUser cl) of
        (Some ac, Some me) \<Rightarrow>
          if \<not> is_admin ac me
          then (s, cl, notify error ''Permission Denied''
                         ''Only group admins can manage admin roles'')
          else
            (let isCurrentlyAdmin = is_admin ac userId;
                 old = (case admins ac of None \<Rightarrow> [] | Some a \<Rightarrow> a);
                 updatedAdmins = (if isCurrentlyAdmin then filter (\<lambda>a. a \<noteq> userId) old
                                  else old @ [userId]);
                 cl' = (if isCurrentlyAdmin \<or> admins ac = None then cl
                        else cl\<lparr> activeChat := Some (ac\<lparr> admins := Some updatedAdmins \<rparr>) \<rparr>)
             in case run_writes ok 0
                       [update_chat (id ac)
                          (\<lambda>n. n\<lparr> admins := Some updatedAdmins, updatedAt := Some now \<rparr>)] s of
                  (s', True) \<Rightarrow>
                    (s', cl', notify success ''Admin Role Updated''
                                (''User '' @ (if isCurrentlyAdmin then ''removed from''
                                              else ''added to'') @ '' admin role''))
                | (s', False) \<Rightarrow> (s', cl', notify error ''Error'' ''Failed to update admin role''))
      | _ \<Rightarrow> (s, cl, Returned))"

section \<open>Message store\<close>

text \<open>\<^verbatim>\<open>sendMessage\<close>. \<^verbatim>\<open>push\<close> appends a child under a key the store generates (the
  parameter \<open>key\<close>); the time stamp of the message is assigned by the server (the
  parameter \<open>serverTime\<close>). Three awaited writes: the message, the summary, the date.\<close>

definition sendMessage ::
  "(nat \<Rightarrow> bool) \<Rightarrow> instant \<Rightarrow> instant \<Rightarrow> string \<Rightarrow> client \<Rightarrow> store \<Rightarrow> store \<times> client \<times> outcome" where
  "sendMessage ok now serverTime key cl s =
     (case (activeChat cl, currentUser cl, userData cl) of
        (Some ac, Some me, Some ud) \<Rightarrow>
          if trim (newMessage cl) = [] then (s, cl, Returned)
          else
            (let messageData = \<lparr> senderId = me, senderName = displayName ud,
                   senderAvatar = photoURL ud, content = trim (newMessage cl),
                   timestamp = serverTime, mtype = text_message, chatId = id ac \<rparr>
             in case run_writes ok 0
                       [push_message (id ac) key messageData,
                        update_chat (id ac)
                          (\<lambda>n. n\<lparr> lastMessage := Some \<lparr> lm_content = trim (newMessage cl),
                                     lm_timestamp = now, lm_senderId = me,
                                     lm_senderName = displayName ud \<rparr> \<rparr>),
                        update_chat (id ac) (\<lambda>n. n\<lparr> updatedAt := Some now \<rparr>)] s of
                  (s', True) \<Rightarrow> (s', cl\<lparr> newMessage := [] \<rparr>, Completed)
                | (s', False) \<Rightarrow> (s', cl, notify error ''Error'' ''Failed to send message''))
      | _ \<Rightarrow> (s, cl, Returned))"

section \<open>User directory search\<close>

text \<open>A document of the user collection as the search reads it, with its id.\<close>

record user_doc =
  doc_displayName :: "string option"
  doc_username :: "string option"
  doc_email :: "string option"

type_synonym found_user = "uid \<times> user_doc"

text \<open>The map \<^verbatim>\<open>results\<close> is keyed by user id; its values, in insertion order, are
  what is sorted. \<^verbatim>\<open>x?.toLowerCase() || ''\<close> and \<^verbatim>\<open>x?.toLowerCase().includes(term)\<close>.\<close>

definition lower_or_empty :: "string option \<Rightarrow> string" where
  "lower_or_empty x = (case x of None \<Rightarrow> [] | Some v \<Rightarrow> toLowerCase v)"

definition opt_includes :: "string option \<Rightarrow> string \<Rightarrow> bool" where
  "opt_includes x t = (case x of None \<Rightarrow> False | Some v \<Rightarrow> includes_str (toLowerCase v) t)"

definition collect ::
  "(found_user \<Rightarrow> bool) \<Rightarrow> found_user list \<Rightarrow> (uid \<times> found_user) list \<Rightarrow> (uid \<times> found_user) list" where
  "collect keep snapshot results =
     foldl (\<lambda>r d. if keep d then map_set (fst d) d r else r) results snapshot"

definition starts_with_term :: "string \<Rightarrow> found_user \<Rightarrow> bool" where
  "starts_with_term t u =
     (startsWith (lower_or_empty (doc_displayName (snd u))) t \<or>
      startsWith (lower_or_empty (doc_username (snd u))) t)"

text \<open>The comparator of the search. \<^verbatim>\<open>localeCompare\<close> is the collation of the host; it is
  the parameter \<open>lc\<close>.\<close>

definition relevance :: "(string \<Rightarrow> string \<Rightarrow> int) \<Rightarrow> string \<Rightarrow> found_user \<Rightarrow> found_user \<Rightarrow> int" where
  "relevance lc t a b =
     (if starts_with_term t a \<and> \<not> starts_with_term t b then - 1
      else if \<not> starts_with_term t a \<and> starts_with_term t b then 1
      else lc (lower_or_empty (doc_displayName (snd a)))
              (lower_or_empty (doc_displayName (snd b))))"

text \<open>\<^verbatim>\<open>searchUsers\<close>, with the effect's guard on a blank query. The three snapshots are
  what the two range queries and the broad query return; the range queries are
  awaited together, the broad query only when they gave nothing.\<close>

definition searchUsers ::
  "(string \<Rightarrow> string \<Rightarrow> int) \<Rightarrow> (nat \<Rightarrow> bool) \<Rightarrow> string \<Rightarrow> uid option \<Rightarrow>
   found_user list \<Rightarrow> found_user list \<Rightarrow> found_user list \<Rightarrow> found_user list \<times> outcome" where
  "searchUsers lc ok searchQuery me displayNameSnapshot usernameSnapshot broadSnapshot =
     (if trim searchQuery = [] then ([], Returned)
      else
        (let searchTerm = trim (toLowerCase searchQuery);
             failed = ([], notify error ''Search Failed''
                             ''Failed to search users. Please try again.'');
             ranked = (\<lambda>results. (take 8 (sort_by (relevance lc searchTerm) (map snd results)),
                                  Completed))
         in if \<not> (ok 0 \<and> ok 1) then failed
            else
              (let r1 = collect (\<lambda>d. Some (fst d) \<noteq> me \<and>
                                     opt_includes (doc_displayName (snd d)) searchTerm)
                          displayNameSnapshot [];
                   r2 = collect (\<lambda>d. Some (fst d) \<noteq> me \<and>
                                     opt_includes (doc_username (snd d)) searchTerm)
                          usernameSnapshot r1
               in if length r2 = 0
                  then (if \<not> ok 2 then failed
                        else ranked (collect
                               (\<lambda>d. Some (fst d) \<noteq> me \<and>
                                    (includes_str (lower_or_empty (doc_displayName (snd d))) searchTerm \<or>
                                     includes_str (lower_or_empty (doc_username (snd d))) searchTerm \<or>
                                     includes_str (lower_or_empty (doc_email (snd d))) searchTerm))
                               broadSnapshot r2))
                  else ranked r2)))"


text \<open>The parts of \<^verbatim>\<open>searchUsers\<close> by name: the conditions under which a document of the
  display name snapshot, of the username snapshot and of the broad snapshot is put into
  \<^verbatim>\<open>results\<close>, the table after the two range snapshots, and the table that is sorted.\<close>

definition keep_by_name :: "uid option \<Rightarrow> string \<Rightarrow> found_user \<Rightarrow> bool" where
  "keep_by_name me t d = (Some (fst d) \<noteq> me \<and> opt_includes (doc_displayName (snd d)) t)"

definition keep_by_username :: "uid option \<Rightarrow> string \<Rightarrow> found_user \<Rightarrow> bool" where
  "keep_by_username me t d = (Some (fst d) \<noteq> me \<and> opt_includes (doc_username (snd d)) t)"

definition keep_by_scan :: "uid option \<Rightarrow> string \<Rightarrow> found_user \<Rightarrow> bool" where
  "keep_by_scan me t d =
     (Some (fst d) \<noteq> me \<and>
      (includes_str (lower_or_empty (doc_displayName (snd d))) t \<or>
       includes_str (lower_or_empty (doc_username (snd d))) t \<or>
       includes_str (lower_or_empty (doc_email (snd d))) t))"

definition range_found ::
  "uid option \<Rightarrow> string \<Rightarrow> found_user list \<Rightarrow> found_user list \<Rightarrow> (uid \<times> found_user) list" where
  "range_found me t ds us = collect (keep_by_username me t) us (collect (keep_by_name me t) ds [])"

definition candidates ::
  "uid option \<Rightarrow> string \<Rightarrow> found_user list \<Rightarrow> found_user list \<Rightarrow> found_user list \<Rightarrow>
   (uid \<times> found_user) list" where
  "candidates me t ds us bs =
     (if length (range_found me t ds us) = 0
      then collect (keep_by_scan me t) bs (range_found me t ds us)
      else range_found me t ds us)"

text \<open>The three queries. The directory is the collection \<^verbatim>\<open>users\<close>, its documents in the
  order of their ids. \<^verbatim>\<open>orderBy(field), startAt(searchTerm), endAt(searchTerm + '\uf8ff'),
  limit(10)\<close> gives the documents that have the field with a value from \<^verbatim>\<open>searchTerm\<close> to
  \<^verbatim>\<open>searchTerm\<close> followed by U+F8FF, which for values of code units below U+F8FF are the
  values that start with \<^verbatim>\<open>searchTerm\<close> as it is written (the stored value is not
  lower-cased); they come in the order of the values, documents of equal value in the
  order of their ids, and at most 10 of them. \<^verbatim>\<open>limit(50)\<close> alone gives the first 50
  documents.\<close>

definition field_value :: "(user_doc \<Rightarrow> string option) \<Rightarrow> found_user \<Rightarrow> string" where
  "field_value field d = (case field (snd d) of None \<Rightarrow> [] | Some v \<Rightarrow> v)"

definition range_query ::
  "(user_doc \<Rightarrow> string option) \<Rightarrow> string \<Rightarrow> found_user list \<Rightarrow> found_user list" where
  "range_query field searchTerm directory =
     take 10 (sort_by (\<lambda>a b. default_compare (field_value field a) (field_value field b))
                (filter (\<lambda>d. case field (snd d) of None \<Rightarrow> False
                                | Some v \<Rightarrow> startsWith v searchTerm) directory))"

definition displayNameQuery :: "string \<Rightarrow> found_user list \<Rightarrow> found_user list" where
  "displayNameQuery searchTerm directory = range_query doc_displayName searchTerm directory"

definition usernameQuery :: "string \<Rightarrow> found_user list \<Rightarrow> found_user list" where
  "usernameQuery searchTerm directory = range_query doc_username searchTerm directory"

definition broadQuery :: "found_user list \<Rightarrow> found_user list" where
  "broadQuery directory = take 50 directory"

text \<open>The search over a directory: \<^verbatim>\<open>searchUsers\<close> on the snapshots of its three
  queries.\<close>

definition searchDirectory ::
  "(string \<Rightarrow> string \<Rightarrow> int) \<Rightarrow> (nat \<Rightarrow> bool) \<Rightarrow> string \<Rightarrow> uid option \<Rightarrow>
   found_user list \<Rightarrow> found_user list \<times> outcome" where
  "searchDirectory lc ok searchQuery me directory =
     searchUsers lc ok searchQuery me
       (displayNameQuery (trim (toLowerCase searchQuery)) directory)
       (usernameQuery (trim (toLowerCase searchQuery)) directory)
       (broadQuery directory)"


section \<open>Stated properties\<close>


text \<open>A collation is a comparator that is a total preorder: any two strings compare one way
  or the other, and the comparison is transitive.\<close>

definition collation :: "(string \<Rightarrow> string \<Rightarrow> int) \<Rightarrow> bool" where
  "collation lc =
     ((\<forall>a b. lc a b \<le> 0 \<or> lc b a \<le> 0) \<and>
      (\<forall>a b c. lc a b \<le> 0 \<and> lc b c \<le> 0 \<longrightarrow> lc a c \<le> 0))"

text \<open>The ranking of the search: a user that matches the query by prefix never comes after
  one that does not; users of the same class are in the order of their lower-cased
  display names.\<close>

definition prefix_first :: "string \<Rightarrow> found_user \<Rightarrow> found_user \<Rightarrow> bool" where
  "prefix_first t a b = (starts_with_term t b \<longrightarrow> starts_with_term t a)"

definition ranks_before ::
  "(string \<Rightarrow> string \<Rightarrow> int) \<Rightarrow> string \<Rightarrow> found_user \<Rightarrow> found_user \<Rightarrow> bool" where
  "ranks_before lc t a b =
     (prefix_first t a b \<and>
      (starts_with_term t a = starts_with_term t b \<longrightarrow>
         lc (lower_or_empty (doc_displayName (snd a)))
            (lower_or_empty (doc_displayName (snd b))) \<le> 0))"


text \<open>The order of two users by their display names as stored, and the order of users of
  the same class by their lower-cased display names, both lexicographic by code units.\<close>

definition display_name_le :: "found_user \<Rightarrow> found_user \<Rightarrow> bool" where
  "display_name_le a b =
     str_le (case doc_displayName (snd a) of None \<Rightarrow> [] | Some n \<Rightarrow> n)
            (case doc_displayName (snd b) of None \<Rightarrow> [] | Some n \<Rightarrow> n)"

definition lexicographic_ties :: "string \<Rightarrow> found_user \<Rightarrow> found_user \<Rightarrow> bool" where
  "lexicographic_ties t a b =
     (starts_with_term t a = starts_with_term t b \<longrightarrow>
        str_le (lower_or_empty (doc_displayName (snd a)))
               (lower_or_empty (doc_displayName (snd b))))"


section \<open>Scenarios\<close>

text \<open>Concrete stores and clients on which the properties below are exercised.\<close>

definition demo_store :: store where
  "demo_store = \<lparr> db_status = [(''ann'', \<lparr> isOnline = Some True, lastSeen = Some 1000, uid_of = Some ''ann'' \<rparr>)],
      db_users = Map.empty, db_chats = Map.empty, db_messages = (\<lambda>c. []), db_userChats = (\<lambda>u. {}) \<rparr>"

definition ann_profile :: User where
  "ann_profile = \<lparr> displayName = ''Ann'', photoURL = None \<rparr>"

definition bob_profile :: User where
  "bob_profile = \<lparr> displayName = ''Bob'', photoURL = None \<rparr>"

definition study_node :: chat_node where
  "study_node = \<lparr> ctype = Some group, name = Some ''Study'',
     participants = [''ann'', ''bob''],
     participantDetails = [''ann'' \<mapsto> \<lparr> dname = ''Ann'', avatar = None \<rparr>,
                           ''bob'' \<mapsto> \<lparr> dname = ''Bob'', avatar = None \<rparr>],
     admins = Some [''ann''], createdBy = Some ''ann'', lastMessage = None,
     createdAt = Some 0, updatedAt = Some 0 \<rparr>"

definition study_group :: Chat where
  "study_group = \<lparr> ctype = Some group, name = Some ''Study'',
     participants = [''ann'', ''bob''],
     participantDetails = [''ann'' \<mapsto> \<lparr> dname = ''Ann'', avatar = None \<rparr>,
                           ''bob'' \<mapsto> \<lparr> dname = ''Bob'', avatar = None \<rparr>],
     admins = Some [''ann''], createdBy = Some ''ann'', lastMessage = None,
     createdAt = Some 0, updatedAt = Some 0, id = ''g1'' \<rparr>"

definition group_store :: store where
  "group_store = \<lparr> db_status = [], db_users = [''ann'' \<mapsto> ann_profile, ''bob'' \<mapsto> bob_profile],
     db_chats = [''g1'' \<mapsto> study_node], db_messages = (\<lambda>c. []),
     db_userChats = (\<lambda>u. if u = ''ann'' \<or> u = ''bob'' then {''g1''} else {}) \<rparr>"

definition bob_client :: client where
  "bob_client = \<lparr> currentUser = Some ''bob'', userData = Some bob_profile,
     chats = [study_group], activeChat = Some study_group, newMessage = ''  hello '',
     editingGroupName = ''   '', groupName = [], selectedUsers = [] \<rparr>"

definition always :: "nat \<Rightarrow> bool" where
  "always i = True"

definition ann_client :: client where
  "ann_client = \<lparr> currentUser = Some ''ann'', userData = Some ann_profile,
     chats = [study_group], activeChat = Some study_group, newMessage = [],
     editingGroupName = '' Study Group'', groupName = [], selectedUsers = [] \<rparr>"




definition direct_chat :: Chat where
  "direct_chat = \<lparr> ctype = Some individual, name = None, participants = [''ann'', ''bob''],
     participantDetails = [''ann'' \<mapsto> \<lparr> dname = ''Ann'', avatar = None \<rparr>,
                           ''bob'' \<mapsto> \<lparr> dname = ''Bob'', avatar = None \<rparr>],
     admins = None, createdBy = None, lastMessage = None,
     createdAt = Some 0, updatedAt = Some 0, id = ''ann_bob'' \<rparr>"

definition direct_store :: store where
  "direct_store = group_store
     \<lparr> db_chats := (db_chats group_store)(''ann_bob'' \<mapsto>
          \<lparr> ctype = Some individual, name = None, participants = [''ann'', ''bob''],
            participantDetails = [''ann'' \<mapsto> \<lparr> dname = ''Ann'', avatar = None \<rparr>,
                                  ''bob'' \<mapsto> \<lparr> dname = ''Bob'', avatar = None \<rparr>],
            admins = None, createdBy = None, lastMessage = None,
            createdAt = Some 0, updatedAt = Some 0 \<rparr>),
       db_messages := (db_messages group_store)(''ann_bob'' :=
          [(''m1'', \<lparr> senderId = ''ann'', senderName = ''Ann'', senderAvatar = None,
                     content = ''hi'', timestamp = 1, mtype = text_message,
                     chatId = ''ann_bob'' \<rparr>)]),
       db_userChats := (\<lambda>u. if u = ''ann'' \<or> u = ''bob'' then {''g1'', ''ann_bob''} else {}) \<rparr>"

definition ann_direct_client :: client where
  "ann_direct_client = ann_client\<lparr> chats := [study_group, direct_chat], activeChat := None \<rparr>"




definition ann_fresh :: client where
  "ann_fresh = ann_client\<lparr> chats := [], activeChat := None \<rparr>"

definition bob_fresh :: client where
  "bob_fresh = bob_client\<lparr> chats := [], activeChat := None \<rparr>"

text \<open>Users of the directory: the two of the ranking example, and two without a username
  whose display names start with the query as well.\<close>

definition alice :: found_user where
  "alice = (''u1'', \<lparr> doc_displayName = Some ''Alice Smith'', doc_username = Some ''alice'',
                      doc_email = Some ''alice@example.org'' \<rparr>)"

definition bobA :: found_user where
  "bobA = (''u2'', \<lparr> doc_displayName = Some ''Bob Alison'', doc_username = Some ''bobA'',
                     doc_email = Some ''bob@example.org'' \<rparr>)"

definition alina :: found_user where
  "alina = (''u3'', \<lparr> doc_displayName = Some ''Alina Berg'', doc_username = None,
                      doc_email = None \<rparr>)"

definition alix :: found_user where
  "alix = (''u4'', \<lparr> doc_displayName = Some ''Alix Roy'', doc_username = None,
                     doc_email = None \<rparr>)"


text \<open>More users of the directory: Alice Smith without a username, a user whose username
  only starts with the query, two users whose display names differ in the case of the
  first letter, and a user whose display name is stored in lower case.\<close>

definition alice_smith :: found_user where
  "alice_smith = (''u5'', \<lparr> doc_displayName = Some ''Alice Smith'', doc_username = None,
                            doc_email = Some ''alice@example.org'' \<rparr>)"

definition zoeA :: found_user where
  "zoeA = (''u6'', \<lparr> doc_displayName = Some ''Zoe Alia'', doc_username = Some ''alia'',
                     doc_email = None \<rparr>)"

definition zoe :: found_user where
  "zoe = (''u7'', \<lparr> doc_displayName = Some ''Zoe Malik'', doc_username = None,
                    doc_email = None \<rparr>)"

definition amy :: found_user where
  "amy = (''u8'', \<lparr> doc_displayName = Some ''amy malik'', doc_username = None,
                    doc_email = None \<rparr>)"

definition ali_khan :: found_user where
  "ali_khan = (''u9'', \<lparr> doc_displayName = Some ''ali khan'', doc_username = None,
                         doc_email = None \<rparr>)"


section \<open>Facts about the host functions\<close>


lemma map_of_map_set: "map_of (map_set k v xs) = (map_of xs)(k \<mapsto> v)"
  by (induction xs) auto

lemma keys_map_set: "fst ` set (map_set k v xs) = insert k (fst ` set xs)"
proof (induction xs)
  case Nil
  then show ?case by simp
next
  case (Cons x xs)
  obtain k' v' where x: "x = (k', v')" by (cases x)
  show ?case unfolding x using Cons.IH by (cases "k = k'") auto
qed

lemma distinct_map_set:
  "distinct (map fst xs) \<Longrightarrow> distinct (map fst (map_set k v xs))"
proof (induction xs)
  case Nil
  then show ?case by simp
next
  case (Cons x xs)
  obtain k' v' where x: "x = (k', v')" by (cases x)
  have "k' \<notin> fst ` set (map_set k v xs)" if "k \<noteq> k'"
    using Cons.prems that by (simp add: keys_map_set x)
  with Cons show ?case by (auto simp: x)
qed

lemma str_le_refl: "str_le a a"
  by (induction a) simp_all

lemma str_le_Nil: "str_le t [] = (t = [])"
  by (cases t) simp_all

lemma str_le_total: "str_le a b \<or> str_le b a"
  by (induction a b rule: str_le.induct) auto

lemma str_le_antisym: "str_le a b \<Longrightarrow> str_le b a \<Longrightarrow> a = b"
  by (induction a b rule: str_le.induct) (auto simp: str_le_Nil)

lemma str_le_trans: "str_le a b \<Longrightarrow> str_le b c \<Longrightarrow> str_le a c"
proof (induction a b arbitrary: c rule: str_le.induct)
  case (1 t)
  then show ?case by simp
next
  case (2 c cs)
  then show ?case by simp
next
  case (3 x xs y ys)
  then show ?case by (cases c) (auto simp: str_le_Nil)
qed

lemma set_insert_by: "set (insert_by cmp x xs) = insert x (set xs)"
  by (induction xs) auto

lemma sorted_insert_by:
  assumes total: "\<And>a b. cmp a b \<le> 0 \<or> cmp b a \<le> 0"
      and trans: "\<And>a b c. cmp a b \<le> 0 \<Longrightarrow> cmp b c \<le> 0 \<Longrightarrow> cmp a c \<le> 0"
  shows "sorted_wrt (\<lambda>a b. cmp a b \<le> 0) xs \<Longrightarrow>
         sorted_wrt (\<lambda>a b. cmp a b \<le> 0) (insert_by cmp x xs)"
proof (induction xs)
  case Nil
  then show ?case by simp
next
  case (Cons y ys)
  show ?case
  proof (cases "cmp x y \<le> 0")
    case True
    with Cons.prems trans show ?thesis by auto
  next
    case False
    with total have "cmp y x \<le> 0" by blast
    with False Cons show ?thesis by (auto simp: set_insert_by)
  qed
qed

lemma sorted_sort_by:
  assumes "\<And>a b. cmp a b \<le> 0 \<or> cmp b a \<le> 0"
      and "\<And>a b c. cmp a b \<le> 0 \<Longrightarrow> cmp b c \<le> 0 \<Longrightarrow> cmp a c \<le> 0"
  shows "sorted_wrt (\<lambda>a b. cmp a b \<le> 0) (sort_by cmp xs)"
  by (induction xs) (simp_all add: sorted_insert_by [OF assms])

lemma sorted_wrt_take: "sorted_wrt R xs \<Longrightarrow> sorted_wrt R (take n xs)"
  by (metis append_take_drop_id sorted_wrt_append)

lemma trim_hello: "trim ''  hello '' = ''hello''" "trim ''   '' = []"
  by (simp_all add: trim_def isWhiteSpace_def)


lemma trim_ali: "trim ''ali'' = ''ali''" "trim ''ali '' = ''ali''" "trim ''Ali '' = ''Ali''"
  by (simp_all add: trim_def isWhiteSpace_def)

lemma lower_literals:
  "toLowerCase ''Alice Smith'' = ''alice smith''"
  "toLowerCase ''Bob Alison'' = ''bob alison''"
  "toLowerCase ''Alina Berg'' = ''alina berg''"
  "toLowerCase ''Alix Roy'' = ''alix roy''"
  "toLowerCase ''alice'' = ''alice''"
  "toLowerCase ''bobA'' = ''boba''"
  "toLowerCase ''alice@example.org'' = ''alice@example.org''"
  "toLowerCase ''bob@example.org'' = ''bob@example.org''"
  "toLowerCase ''ali'' = ''ali''"
  "toLowerCase ''Ali '' = ''ali ''"
  by code_simp+


lemma lower_literals2:
  "toLowerCase ''Zoe Malik'' = ''zoe malik''"
  "toLowerCase ''amy malik'' = ''amy malik''"
  "toLowerCase ''Zoe Alia'' = ''zoe alia''"
  "toLowerCase ''ali khan'' = ''ali khan''"
  "toLowerCase ''alia'' = ''alia''"
  "toLowerCase ''mal'' = ''mal''"
  by code_simp+

lemma trim_mal: "trim ''mal'' = ''mal''"
  by (simp add: trim_def isWhiteSpace_def)


section \<open>Facts about the store primitives\<close>

lemma run_writes_accepted:
  "(\<forall>j. ok j) \<Longrightarrow> run_writes ok i ws s = (foldl (\<lambda>s w. w s) s ws, True)"
  by (induction ws arbitrary: i s) simp_all


lemma fst_case_outcome:
  "fst (case r of (s', True) \<Rightarrow> (s', x) | (s', False) \<Rightarrow> (s', y)) = fst r"
  by (cases r) (simp split: bool.splits)



section \<open>Properties of the presence tracker\<close>

lemma map_of_status_table:
  "distinct (map fst xs) \<Longrightarrow>
   map_of (foldl (\<lambda>m (userId, userStatus). map_set userId (f userStatus) m) acc xs)
     = (\<lambda>u. case map_of xs u of None \<Rightarrow> map_of acc u | Some p \<Rightarrow> Some (f p))"
proof (induction xs arbitrary: acc)
  case Nil
  then show ?case by simp
next
  case (Cons x xs)
  obtain k p where x: "x = (k, p)" by (cases x)
  from Cons.prems have "map_of xs k = None" and d: "distinct (map fst xs)"
    by (auto simp: x map_of_eq_None_iff)
  then show ?case
    by (auto simp: x Cons.IH [OF d] map_of_map_set fun_eq_iff split: option.splits)
qed

lemma onStatusSnapshot_lookup:
  assumes "distinct (map fst statusData)" and "(u, p) \<in> set statusData"
  shows "map_of (onStatusSnapshot now statusData table) u = Some (effective_online now p)"
proof -
  from assms have "map_of statusData u = Some p" by simp
  moreover from assms have "statusData \<noteq> []" by auto
  ultimately show ?thesis
    by (simp add: onStatusSnapshot_def map_of_status_table [OF assms(1)])
qed

lemma presence_step_distinct:
  "distinct (map fst (db_status s)) \<Longrightarrow>
   distinct (map fst (db_status (presence_step now u ev s)))"
  by (cases ev)
    (simp_all add: updateStatus_def set_status_def set_status_isOnline_def distinct_map_set)

text \<open>
  C1. The claim: when the transport signals connectivity the handler writes online = true,
  and online = false is only arranged for a later disconnect, so the stored flag is true
  when the handler has run. The handler writes the whole node with online = true and then
  writes \<^verbatim>\<open>false\<close> to the child \<^verbatim>\<open>isOnline\<close> at once: when it has run, the stored
  flag is false.
\<close>

theorem connected_handler_writes_offline:
  "map_of (db_status (presence_step now u (Connected True) s)) u =
     Some \<lparr> isOnline = Some False, lastSeen = Some now, uid_of = Some u \<rparr>"
  by (simp add: updateStatus_def set_status_def set_status_isOnline_def map_of_map_set)

text \<open>
  C6. The claim: the derived status is the stored flag and (now - lastSeen < 120 s), hence
  a user who wrote online = true at \<open>T\<close> is reported \<^verbatim>\<open>Online\<close> at \<open>T\<close> + 119 s and
  offline at \<open>T\<close> + 121 s. The flag is derived when a snapshot of the status tree is
  delivered, and \<^verbatim>\<open>getOnlineStatus\<close> reads the table without looking at the clock: a
  table derived at \<open>T\<close> + 100 s still reports \<^verbatim>\<open>Online\<close> when it is shown at
  \<open>T\<close> + 121 s.
\<close>

theorem stale_table_counterexample:
  "map_of (db_status (updateStatus 1000 ''ann'' True demo_store)) ''ann''
     = Some \<lparr> isOnline = Some True, lastSeen = Some 1000, uid_of = Some ''ann'' \<rparr>
   \<and> getOnlineStatus (1000 + 121000)
        (onStatusSnapshot (1000 + 100000) (db_status (updateStatus 1000 ''ann'' True demo_store)) [])
        ''ann''
      = (True, ''Online'')
   \<and> \<not> ((1000 + 121000) - 1000 < (120000 :: int))"
  by (simp add: getOnlineStatus_def onStatusSnapshot_def effective_online_def updateStatus_def
        set_status_def demo_store_def)

text \<open>
  C6, amended. The table of presence nodes has one node per user id. For every user with
  a stored presence record, the flag derived from a snapshot delivered at the instant
  \<open>now\<close> is the stored flag and (now - lastSeen < 120 s). A user who wrote online = true
  at \<open>T\<close> is reported \<^verbatim>\<open>Online\<close> by a table derived at \<open>T\<close> + 119 s, and is offline in a
  table derived at \<open>T\<close> + 121 s. The flag reported does not depend on the instant of
  display: a table that reports \<^verbatim>\<open>Online\<close> does so until the next snapshot replaces it.
\<close>

theorem effective_online_window:
  assumes "distinct (map fst (db_status s))"
  shows "((u, \<lparr> isOnline = Some b, lastSeen = Some t, uid_of = x \<rparr>) \<in> set (db_status s) \<longrightarrow>
            fst (getOnlineStatus render (onStatusSnapshot now (db_status s) table) u)
              = (b \<and> now - t < 120000))
       \<and> getOnlineStatus render
            (onStatusSnapshot (T + 119000) (db_status (updateStatus T v True s)) table) v
           = (True, ''Online'')
       \<and> fst (getOnlineStatus render
            (onStatusSnapshot (T + 121000) (db_status (updateStatus T v True s)) table) v)
           = False
       \<and> fst (getOnlineStatus shown tbl w) = fst (getOnlineStatus later tbl w)
       \<and> (fst (getOnlineStatus shown tbl w) \<longrightarrow>
            getOnlineStatus later tbl w = (True, ''Online''))"
proof -
  let ?p = "\<lparr> isOnline = Some True, lastSeen = Some T, uid_of = Some v \<rparr>"
  let ?tbl = "db_status (updateStatus T v True s)"
  have d: "distinct (map fst ?tbl)"
    using assms by (simp add: updateStatus_def set_status_def distinct_map_set)
  have "map_of ?tbl v = Some ?p"
    by (simp add: updateStatus_def set_status_def map_of_map_set)
  then have m: "(v, ?p) \<in> set ?tbl" by (rule map_of_SomeD)
  have 1: "fst (getOnlineStatus render (onStatusSnapshot now (db_status s) table) u)
              = (b \<and> now - t < 120000)"
    if "(u, \<lparr> isOnline = Some b, lastSeen = Some t, uid_of = x \<rparr>) \<in> set (db_status s)"
    using onStatusSnapshot_lookup [OF assms that]
    by (simp add: getOnlineStatus_def effective_online_def)
  have 2: "getOnlineStatus render (onStatusSnapshot (T + 119000) ?tbl table) v = (True, ''Online'')"
    using onStatusSnapshot_lookup [OF d m]
    by (simp add: getOnlineStatus_def effective_online_def)
  have 3: "fst (getOnlineStatus render (onStatusSnapshot (T + 121000) ?tbl table) v) = False"
    using onStatusSnapshot_lookup [OF d m]
    by (simp add: getOnlineStatus_def effective_online_def)
  have 4: "fst (getOnlineStatus shown tbl w) = fst (getOnlineStatus later tbl w)"
    by (simp add: getOnlineStatus_def split: option.splits)
  have 5: "getOnlineStatus later tbl w = (True, ''Online'')"
    if "fst (getOnlineStatus shown tbl w)"
    using that by (auto simp: getOnlineStatus_def split: option.splits)
  from 1 2 3 4 5 show ?thesis by blast
qed

theorem effective_online_window_witness:
  "distinct (map fst (db_status demo_store))
   \<and> (''ann'', \<lparr> isOnline = Some True, lastSeen = Some 1000, uid_of = Some ''ann'' \<rparr>)
        \<in> set (db_status demo_store)
   \<and> fst (getOnlineStatus 120000 (onStatusSnapshot 120000 (db_status demo_store) []) ''ann'')
   \<and> \<not> fst (getOnlineStatus 122000 (onStatusSnapshot 122000 (db_status demo_store) []) ''ann'')
   \<and> getOnlineStatus 122000 (onStatusSnapshot 120000 (db_status demo_store) []) ''ann''
       = (True, ''Online'')"
proof -
  have d: "distinct (map fst (db_status demo_store))"
    and m: "(''ann'', \<lparr> isOnline = Some True, lastSeen = Some 1000, uid_of = Some ''ann'' \<rparr>)
        \<in> set (db_status demo_store)"
    by (simp_all add: demo_store_def)
  note A = effective_online_window [OF d, where u = "''ann''" and b = True
      and t = 1000 and x = "Some ''ann''" and render = 120000 and now = 120000 and table = "[]"
      and w = "''ann''" and tbl = "onStatusSnapshot 120000 (db_status demo_store) []"
      and shown = 120000 and later = 122000]
  note B = effective_online_window [OF d, where u = "''ann''" and b = True
      and t = 1000 and x = "Some ''ann''" and render = 122000 and now = 122000 and table = "[]"]
  from A [THEN conjunct1, THEN mp, OF m]
  have 1: "fst (getOnlineStatus 120000 (onStatusSnapshot 120000 (db_status demo_store) []) ''ann'')"
    by simp
  from B [THEN conjunct1, THEN mp, OF m]
  have 2: "\<not> fst (getOnlineStatus 122000 (onStatusSnapshot 122000 (db_status demo_store) []) ''ann'')"
    by simp
  note 3 = A [THEN conjunct2, THEN conjunct2, THEN conjunct2, THEN conjunct2, THEN mp, OF 1]
  show ?thesis
    by (intro conjI d m 1 2 3)
qed


section \<open>Properties of the message store\<close>

text \<open>
  C2. \<^verbatim>\<open>sendMessage\<close> rejects empty or whitespace-only content locally: nothing is
  written, the store is as before. When it succeeds, the message log of the chat has
  exactly one more entry, the new message with the trimmed content, and the content of
  \<^verbatim>\<open>chat.lastMessage\<close> is the trimmed content. For a signed-in user with an active chat,
  content that is not blank and three accepted writes, it does succeed.
\<close>

theorem sendMessage_contract:
  "(trim (newMessage cl) = [] \<longrightarrow> sendMessage ok now st key cl s = (s, cl, Returned))
   \<and> (sendMessage ok now st key cl s = (s', cl', Completed) \<longrightarrow>
        (\<exists>ac n lm m. activeChat cl = Some ac
           \<and> trim (newMessage cl) \<noteq> []
           \<and> db_messages s' (id ac) = db_messages s (id ac) @ [(key, m)]
           \<and> content m = trim (newMessage cl)
           \<and> length (db_messages s' (id ac)) = length (db_messages s (id ac)) + 1
           \<and> db_chats s' (id ac) = Some n \<and> lastMessage n = Some lm
           \<and> lm_content lm = trim (newMessage cl)))
   \<and> (activeChat cl \<noteq> None \<and> currentUser cl \<noteq> None \<and> userData cl \<noteq> None
        \<and> trim (newMessage cl) \<noteq> [] \<and> ok 0 \<and> ok 1 \<and> ok 2 \<longrightarrow>
        snd (snd (sendMessage ok now st key cl s)) = Completed)"
proof (intro conjI impI)
  assume "trim (newMessage cl) = []"
  then show "sendMessage ok now st key cl s = (s, cl, Returned)"
    by (simp add: sendMessage_def split: option.splits)
next
  assume r: "sendMessage ok now st key cl s = (s', cl', Completed)"
  then obtain ac me ud where a: "activeChat cl = Some ac" "currentUser cl = Some me"
      "userData cl = Some ud"
    by (auto simp: sendMessage_def split: option.splits)
  from r a have t: "trim (newMessage cl) \<noteq> []"
    by (auto simp: sendMessage_def)
  from r a t have ok: "ok 0" "ok (Suc 0)" "ok (Suc (Suc 0))"
    by (auto simp: sendMessage_def notify_def Let_def split: if_splits)
  from r a t ok show "\<exists>ac n lm m. activeChat cl = Some ac
           \<and> trim (newMessage cl) \<noteq> []
           \<and> db_messages s' (id ac) = db_messages s (id ac) @ [(key, m)]
           \<and> content m = trim (newMessage cl)
           \<and> length (db_messages s' (id ac)) = length (db_messages s (id ac)) + 1
           \<and> db_chats s' (id ac) = Some n \<and> lastMessage n = Some lm
           \<and> lm_content lm = trim (newMessage cl)"
    by (auto simp: sendMessage_def Let_def push_message_def update_chat_def)
next
  assume "activeChat cl \<noteq> None \<and> currentUser cl \<noteq> None \<and> userData cl \<noteq> None
        \<and> trim (newMessage cl) \<noteq> [] \<and> ok 0 \<and> ok 1 \<and> ok 2"
  then show "snd (snd (sendMessage ok now st key cl s)) = Completed"
    by (auto simp: sendMessage_def Let_def numeral_2_eq_2)
qed

theorem sendMessage_contract_witness:
  "trim (newMessage (bob_client\<lparr> newMessage := ''   '' \<rparr>)) = []
   \<and> sendMessage always 5 6 ''k1'' (bob_client\<lparr> newMessage := ''   '' \<rparr>) group_store
       = (group_store, bob_client\<lparr> newMessage := ''   '' \<rparr>, Returned)
   \<and> snd (snd (sendMessage always 5 6 ''k1'' bob_client group_store)) = Completed
   \<and> length (db_messages (fst (sendMessage always 5 6 ''k1'' bob_client group_store)) ''g1'') = 1
   \<and> map_option lm_content
        (lastMessage (the (db_chats (fst (sendMessage always 5 6 ''k1'' bob_client group_store)) ''g1'')))
       = Some ''hello''"
proof -
  let ?quiet = "bob_client\<lparr> newMessage := ''   '' \<rparr>"
  obtain s' cl' out where r: "sendMessage always 5 6 ''k1'' bob_client group_store = (s', cl', out)"
    by (cases "sendMessage always 5 6 ''k1'' bob_client group_store")
  have g: "activeChat bob_client \<noteq> None \<and> currentUser bob_client \<noteq> None \<and> userData bob_client \<noteq> None
        \<and> trim (newMessage bob_client) \<noteq> [] \<and> always 0 \<and> always 1 \<and> always 2"
    by (simp add: bob_client_def trim_hello always_def)
  have b: "trim (newMessage ?quiet) = []" by (simp add: trim_hello)
  from sendMessage_contract [of ?quiet always 5 6 "''k1''" group_store s' cl'] b
  have 1: "sendMessage always 5 6 ''k1'' ?quiet group_store = (group_store, ?quiet, Returned)"
    by blast
  from sendMessage_contract [of bob_client always 5 6 "''k1''" group_store s' cl'] g r
  have 2: "out = Completed" by simp
  from sendMessage_contract [of bob_client always 5 6 "''k1''" group_store s' cl'] r 2
  obtain ac n lm m where "activeChat bob_client = Some ac"
      "length (db_messages s' (id ac)) = length (db_messages group_store (id ac)) + 1"
      "db_chats s' (id ac) = Some n" "lastMessage n = Some lm"
      "lm_content lm = trim (newMessage bob_client)"
    by blast
  then have 3: "length (db_messages s' ''g1'') = 1"
     "map_option lm_content (lastMessage (the (db_chats s' ''g1''))) = Some ''hello''"
    by (auto simp add: bob_client_def study_group_def group_store_def trim_hello)
  from b 1 2 3 r show ?thesis by simp
qed


section \<open>Properties of the chat lifecycle\<close>







text \<open>
  C9. When \<^verbatim>\<open>deleteChat\<close> is called on a chat id that is not in the caller's loaded list,
  or on a chat of the list that is not an individual chat, only the caller's own
  membership marker is removed: every chat record, every message log and every other
  user's markers are as before. Whenever a chat record or a message log changes, the chat
  is an individual chat of the list; for such a chat, with every request accepted, the
  chat record and the message log are gone.
\<close>

theorem deleteChat_frame:
  assumes "currentUser cl = Some me"
  shows "((find (\<lambda>chat. id chat = c) (chats cl) = None
           \<or> (\<exists>chat. find (\<lambda>chat. id chat = c) (chats cl) = Some chat
                      \<and> ctype chat \<noteq> Some individual)) \<longrightarrow>
            db_chats (fst (deleteChat ok c cl s)) = db_chats s
          \<and> db_messages (fst (deleteChat ok c cl s)) = db_messages s
          \<and> (\<forall>u. u \<noteq> me \<longrightarrow>
                db_userChats (fst (deleteChat ok c cl s)) u = db_userChats s u)
          \<and> db_userChats (fst (deleteChat ok c cl s)) me - {c} = db_userChats s me - {c}
          \<and> (ok 0 \<longrightarrow> c \<notin> db_userChats (fst (deleteChat ok c cl s)) me))
       \<and> ((db_chats (fst (deleteChat ok c cl s)) \<noteq> db_chats s
            \<or> db_messages (fst (deleteChat ok c cl s)) \<noteq> db_messages s) \<longrightarrow>
            (\<exists>chat. find (\<lambda>chat. id chat = c) (chats cl) = Some chat
                    \<and> ctype chat = Some individual))
       \<and> ((\<exists>chat. find (\<lambda>chat. id chat = c) (chats cl) = Some chat
                    \<and> ctype chat = Some individual) \<and> (\<forall>i. ok i) \<longrightarrow>
            db_chats (fst (deleteChat ok c cl s)) c = None
          \<and> db_messages (fst (deleteChat ok c cl s)) c = [])"
proof -
  have frame: "db_chats (fst (deleteChat ok c cl s)) = db_chats s
          \<and> db_messages (fst (deleteChat ok c cl s)) = db_messages s
          \<and> (\<forall>u. u \<noteq> me \<longrightarrow>
                db_userChats (fst (deleteChat ok c cl s)) u = db_userChats s u)
          \<and> db_userChats (fst (deleteChat ok c cl s)) me - {c} = db_userChats s me - {c}
          \<and> (ok 0 \<longrightarrow> c \<notin> db_userChats (fst (deleteChat ok c cl s)) me)"
    if "find (\<lambda>chat. id chat = c) (chats cl) = None
           \<or> (\<exists>chat. find (\<lambda>chat. id chat = c) (chats cl) = Some chat
                      \<and> ctype chat \<noteq> Some individual)"
    using that assms
    by (auto simp: deleteChat_def deleteChat_writes_def remove_userChat_def)
  have gone: "db_chats (fst (deleteChat ok c cl s)) c = None
          \<and> db_messages (fst (deleteChat ok c cl s)) c = []"
    if "\<exists>chat. find (\<lambda>chat. id chat = c) (chats cl) = Some chat \<and> ctype chat = Some individual"
      and "\<forall>i. ok i"
    using that assms
    by (auto simp: deleteChat_def deleteChat_writes_def run_writes_accepted remove_userChat_def
          remove_chat_def remove_messages_def split: option.splits)
  have only: "\<exists>chat. find (\<lambda>chat. id chat = c) (chats cl) = Some chat
                    \<and> ctype chat = Some individual"
    if changed: "db_chats (fst (deleteChat ok c cl s)) \<noteq> db_chats s
            \<or> db_messages (fst (deleteChat ok c cl s)) \<noteq> db_messages s"
  proof (rule ccontr)
    assume "\<not> ?thesis"
    then have "find (\<lambda>chat. id chat = c) (chats cl) = None
           \<or> (\<exists>chat. find (\<lambda>chat. id chat = c) (chats cl) = Some chat
                      \<and> ctype chat \<noteq> Some individual)"
      by (cases "find (\<lambda>chat. id chat = c) (chats cl)") auto
    from frame [OF this] changed show False by simp
  qed
  show ?thesis
  proof (intro conjI impI)
    assume "find (\<lambda>chat. id chat = c) (chats cl) = None
           \<or> (\<exists>chat. find (\<lambda>chat. id chat = c) (chats cl) = Some chat
                      \<and> ctype chat \<noteq> Some individual)"
    from frame [OF this]
    show "db_chats (fst (deleteChat ok c cl s)) = db_chats s"
      and "db_messages (fst (deleteChat ok c cl s)) = db_messages s"
      and "\<forall>u. u \<noteq> me \<longrightarrow>
                db_userChats (fst (deleteChat ok c cl s)) u = db_userChats s u"
      and "db_userChats (fst (deleteChat ok c cl s)) me - {c} = db_userChats s me - {c}"
      and "ok 0 \<Longrightarrow> c \<notin> db_userChats (fst (deleteChat ok c cl s)) me"
      by simp_all
  next
    assume "db_chats (fst (deleteChat ok c cl s)) \<noteq> db_chats s
            \<or> db_messages (fst (deleteChat ok c cl s)) \<noteq> db_messages s"
    then show "\<exists>chat. find (\<lambda>chat. id chat = c) (chats cl) = Some chat
                    \<and> ctype chat = Some individual"
      by (rule only)
  next
    assume "(\<exists>chat. find (\<lambda>chat. id chat = c) (chats cl) = Some chat
                    \<and> ctype chat = Some individual) \<and> (\<forall>i. ok i)"
    then show "db_chats (fst (deleteChat ok c cl s)) c = None"
      and "db_messages (fst (deleteChat ok c cl s)) c = []"
      using gone by simp_all
  qed
qed

theorem deleteChat_frame_witness:
  "currentUser ann_direct_client = Some ''ann''
   \<and> find (\<lambda>chat. id chat = ''zz'') (chats ann_direct_client) = None
   \<and> find (\<lambda>chat. id chat = ''g1'') (chats ann_direct_client) = Some study_group
   \<and> ctype study_group \<noteq> Some individual
   \<and> db_chats (fst (deleteChat always ''g1'' ann_direct_client direct_store)) = db_chats direct_store
   \<and> db_messages (fst (deleteChat always ''g1'' ann_direct_client direct_store))
       = db_messages direct_store
   \<and> db_userChats (fst (deleteChat always ''g1'' ann_direct_client direct_store)) ''bob''
       = {''g1'', ''ann_bob''}
   \<and> ''g1'' \<notin> db_userChats (fst (deleteChat always ''g1'' ann_direct_client direct_store)) ''ann''
   \<and> db_chats (fst (deleteChat always ''zz'' ann_direct_client direct_store)) = db_chats direct_store
   \<and> find (\<lambda>chat. id chat = ''ann_bob'') (chats ann_direct_client) = Some direct_chat
   \<and> ctype direct_chat = Some individual
   \<and> db_chats direct_store ''ann_bob'' \<noteq> None
   \<and> db_chats (fst (deleteChat always ''ann_bob'' ann_direct_client direct_store)) ''ann_bob'' = None
   \<and> db_messages (fst (deleteChat always ''ann_bob'' ann_direct_client direct_store)) ''ann_bob'' = []"
proof -
  have a: "currentUser ann_direct_client = Some ''ann''"
      "find (\<lambda>chat. id chat = ''zz'') (chats ann_direct_client) = None"
      "find (\<lambda>chat. id chat = ''g1'') (chats ann_direct_client) = Some study_group"
      "ctype study_group \<noteq> Some individual"
      "find (\<lambda>chat. id chat = ''ann_bob'') (chats ann_direct_client) = Some direct_chat"
      "ctype direct_chat = Some individual"
      "db_chats direct_store ''ann_bob'' \<noteq> None"
    by (simp_all add: ann_direct_client_def ann_client_def study_group_def direct_chat_def
          direct_store_def)
  have bob: "db_userChats direct_store ''bob'' = {''g1'', ''ann_bob''}"
    by (simp add: direct_store_def)
  have k: "always 0" "\<forall>i. always i" by (simp_all add: always_def)
  have b: "''bob'' \<noteq> ''ann''" by simp
  have A: "find (\<lambda>chat. id chat = ''g1'') (chats ann_direct_client) = None
           \<or> (\<exists>chat. find (\<lambda>chat. id chat = ''g1'') (chats ann_direct_client) = Some chat
                      \<and> ctype chat \<noteq> Some individual)"
    using a(3,4) by blast
  have Z: "find (\<lambda>chat. id chat = ''zz'') (chats ann_direct_client) = None
           \<or> (\<exists>chat. find (\<lambda>chat. id chat = ''zz'') (chats ann_direct_client) = Some chat
                      \<and> ctype chat \<noteq> Some individual)"
    using a(2) by blast
  have I: "(\<exists>chat. find (\<lambda>chat. id chat = ''ann_bob'') (chats ann_direct_client) = Some chat
                    \<and> ctype chat = Some individual) \<and> (\<forall>i. always i)"
    using a(5,6) k(2) by blast
  note F = deleteChat_frame [OF a(1), of "''g1''" always direct_store,
      THEN conjunct1, THEN mp, OF A]
  note G = deleteChat_frame [OF a(1), of "''zz''" always direct_store,
      THEN conjunct1, THEN mp, OF Z]
  note H = deleteChat_frame [OF a(1), of "''ann_bob''" always direct_store,
      THEN conjunct2, THEN conjunct2, THEN mp, OF I]
  note F3 = F [THEN conjunct2, THEN conjunct2, THEN conjunct1, rule_format, OF b]
  note F5 = F [THEN conjunct2, THEN conjunct2, THEN conjunct2, THEN conjunct2, THEN mp, OF k(1)]
  show ?thesis
    by (intro conjI a F [THEN conjunct1] F [THEN conjunct2, THEN conjunct1]
          F3 [unfolded bob] F5 G [THEN conjunct1] H [THEN conjunct1] H [THEN conjunct2])
qed

text \<open>
  C10. \<^verbatim>\<open>toggleAdmin\<close> checks only that the caller is an admin: for any target, an accepted
  write stores the toggled admin list (the target filtered out when it was an admin,
  appended otherwise) and the date, and leaves the other children of the node as they
  were. The sole admin of a group, toggling themselves, leaves a record whose admin list
  is empty while its participants are unchanged.
\<close>

theorem toggleAdmin_no_target_guard:
  assumes "activeChat cl = Some ac" and "currentUser cl = Some me"
      and "admins ac = Some a" and "me \<in> set a" and "ok 0"
  shows "db_chats (fst (toggleAdmin ok now userId cl s)) (id ac) =
            Some ((case db_chats s (id ac) of None \<Rightarrow> empty_node | Some n \<Rightarrow> n)
                   \<lparr> admins := Some (if userId \<in> set a then filter (\<lambda>x. x \<noteq> userId) a
                                      else a @ [userId]),
                     updatedAt := Some now \<rparr>)
       \<and> (a = [me] \<longrightarrow>
            (\<exists>n'. db_chats (fst (toggleAdmin ok now me cl s)) (id ac) = Some n'
                  \<and> admins n' = Some []
                  \<and> participants n' =
                      participants (case db_chats s (id ac) of None \<Rightarrow> empty_node | Some n \<Rightarrow> n))
          \<and> snd (snd (toggleAdmin ok now me cl s)) =
              notify success ''Admin Role Updated'' ''User removed from admin role'')"
  using assms by (simp add: toggleAdmin_def is_admin_def update_chat_def Let_def)

theorem toggleAdmin_no_target_guard_witness:
  "activeChat ann_client = Some study_group \<and> currentUser ann_client = Some ''ann''
   \<and> admins study_group = Some [''ann''] \<and> ''ann'' \<in> set [''ann'']
   \<and> map_option admins (db_chats (fst (toggleAdmin always 3 ''ann'' ann_client group_store)) ''g1'')
       = Some (Some [])
   \<and> map_option participants
        (db_chats (fst (toggleAdmin always 3 ''ann'' ann_client group_store)) ''g1'')
       = Some [''ann'', ''bob'']"
proof -
  have a: "activeChat ann_client = Some study_group" "currentUser ann_client = Some ''ann''"
      "admins study_group = Some [''ann'']" "''ann'' \<in> set [''ann'']" "always 0"
    by (simp_all add: ann_client_def study_group_def always_def)
  from toggleAdmin_no_target_guard [where ok = always and cl = ann_client and ac = study_group
      and me = "''ann''" and a = "[''ann'']" and now = 3 and s = group_store, OF a]
  obtain n' where "db_chats (fst (toggleAdmin always 3 ''ann'' ann_client group_store))
        (id study_group) = Some n'" "admins n' = Some []"
      "participants n' = participants (case db_chats group_store (id study_group) of
                                          None \<Rightarrow> empty_node | Some n \<Rightarrow> n)"
    by blast
  then have "map_option admins
        (db_chats (fst (toggleAdmin always 3 ''ann'' ann_client group_store)) ''g1'') = Some (Some [])"
    "map_option participants
        (db_chats (fst (toggleAdmin always 3 ''ann'' ann_client group_store)) ''g1'')
       = Some [''ann'', ''bob'']"
    by (simp_all add: study_group_def group_store_def study_node_def)
  with a(1-4) show ?thesis by blast
qed





section \<open>Properties of the individual chat\<close>

lemma individual_chat_id_sorted:
  "individual_chat_id a b = (if str_le a b then a @ ''_'' @ b else b @ ''_'' @ a)"
  by (simp add: individual_chat_id_def default_compare_def str_le_refl)

text \<open>
  C7. The id of an individual chat is the two user ids, sorted and joined: it is the same
  for (A, B) and for (B, A). When \<^verbatim>\<open>createOrGetIndividualChat\<close> finds no chat with the
  other user in the loaded list and the first write is accepted, the record under that id
  is an individual chat whose participants are exactly the caller and the other user.
  When both users call it, unaware of each other, with every write accepted, the store
  differs from the initial one in the chat records by this one record only.
\<close>

theorem individual_chat_id_symmetric:
  "individual_chat_id a b = individual_chat_id b a
   \<and> individual_chat_id a b = join ''_'' (if str_le a b then [a, b] else [b, a])
   \<and> (currentUser cl = Some a \<and> userData cl \<noteq> None
       \<and> find (\<lambda>chat. ctype chat = Some individual \<and> b \<in> set (participants chat)) (chats cl) = None
       \<and> ok 0 \<longrightarrow>
       (\<exists>n. db_chats (fst (createOrGetIndividualChat ok now b other cl s)) (individual_chat_id a b)
               = Some n
            \<and> ctype n = Some individual \<and> participants n = [a, b]))
   \<and> (currentUser cl = Some a \<and> userData cl \<noteq> None \<and> chats cl = []
       \<and> currentUser cl' = Some b \<and> userData cl' \<noteq> None \<and> chats cl' = []
       \<and> (\<forall>i. ok i) \<and> (\<forall>i. ok' i) \<longrightarrow>
       (\<exists>n. db_chats (fst (createOrGetIndividualChat ok' now' a other' cl'
                             (fst (createOrGetIndividualChat ok now b other cl s))))
               = (db_chats s)(individual_chat_id a b \<mapsto> n)
            \<and> set (participants n) = {a, b} \<and> length (participants n) = 2))"
proof (intro conjI impI)
  show sym: "individual_chat_id a b = individual_chat_id b a"
    using str_le_total [of a b] str_le_antisym [of a b]
    by (auto simp: individual_chat_id_sorted)
  show "individual_chat_id a b = join ''_'' (if str_le a b then [a, b] else [b, a])"
    by (simp add: individual_chat_id_sorted)
  show "\<exists>n. db_chats (fst (createOrGetIndividualChat ok now b other cl s)) (individual_chat_id a b)
               = Some n
            \<and> ctype n = Some individual \<and> participants n = [a, b]"
    if "currentUser cl = Some a \<and> userData cl \<noteq> None
       \<and> find (\<lambda>chat. ctype chat = Some individual \<and> b \<in> set (participants chat)) (chats cl) = None
       \<and> ok 0"
    using that
    by (auto simp: createOrGetIndividualChat_def Let_def fst_case_outcome set_chat_def
          set_userChat_def)
  show "\<exists>n. db_chats (fst (createOrGetIndividualChat ok' now' a other' cl'
                             (fst (createOrGetIndividualChat ok now b other cl s))))
               = (db_chats s)(individual_chat_id a b \<mapsto> n)
            \<and> set (participants n) = {a, b} \<and> length (participants n) = 2"
    if "currentUser cl = Some a \<and> userData cl \<noteq> None \<and> chats cl = []
       \<and> currentUser cl' = Some b \<and> userData cl' \<noteq> None \<and> chats cl' = []
       \<and> (\<forall>i. ok i) \<and> (\<forall>i. ok' i)"
    using that sym
    by (auto simp: createOrGetIndividualChat_def Let_def fst_case_outcome set_chat_def
          set_userChat_def)
qed

theorem individual_chat_id_symmetric_witness:
  "individual_chat_id ''bob'' ''ann'' = ''ann_bob''
   \<and> individual_chat_id ''ann'' ''bob'' = ''ann_bob''
   \<and> currentUser ann_fresh = Some ''ann'' \<and> userData ann_fresh \<noteq> None \<and> chats ann_fresh = []
   \<and> currentUser bob_fresh = Some ''bob'' \<and> userData bob_fresh \<noteq> None \<and> chats bob_fresh = []
   \<and> (\<exists>n. db_chats (fst (createOrGetIndividualChat always 1 ''bob'' bob_profile ann_fresh demo_store))
               ''ann_bob'' = Some n
          \<and> ctype n = Some individual \<and> participants n = [''ann'', ''bob''])
   \<and> (\<exists>n. db_chats (fst (createOrGetIndividualChat always 2 ''ann'' ann_profile bob_fresh
                 (fst (createOrGetIndividualChat always 1 ''bob'' bob_profile ann_fresh demo_store))))
             = (db_chats demo_store)(''ann_bob'' \<mapsto> n)
          \<and> set (participants n) = {''ann'', ''bob''} \<and> length (participants n) = 2)"
proof -
  have i: "individual_chat_id ''bob'' ''ann'' = ''ann_bob''"
    by (simp add: individual_chat_id_def default_compare_def)
  have a: "currentUser ann_fresh = Some ''ann''" "userData ann_fresh \<noteq> None" "chats ann_fresh = []"
    by (simp_all add: ann_fresh_def ann_client_def)
  have b: "currentUser bob_fresh = Some ''bob''" "userData bob_fresh \<noteq> None" "chats bob_fresh = []"
    by (simp_all add: bob_fresh_def bob_client_def)
  have k: "always 0" "\<forall>i. always i" by (simp_all add: always_def)
  have f: "find (\<lambda>chat. ctype chat = Some individual \<and> ''bob'' \<in> set (participants chat))
             (chats ann_fresh) = None"
    by (simp add: a(3))
  note T = individual_chat_id_symmetric [where a = "''ann''" and b = "''bob''" and cl = ann_fresh
      and cl' = bob_fresh and ok = always and ok' = always and now = 1 and now' = 2
      and other = bob_profile and other' = ann_profile and s = demo_store]
  from T [THEN conjunct1] i have j: "individual_chat_id ''ann'' ''bob'' = ''ann_bob''"
    by (rule trans)
  have h3: "currentUser ann_fresh = Some ''ann'' \<and> userData ann_fresh \<noteq> None
       \<and> find (\<lambda>chat. ctype chat = Some individual \<and> ''bob'' \<in> set (participants chat))
            (chats ann_fresh) = None
       \<and> always 0"
    using a(1,2) f k(1) by (intro conjI)
  have h4: "currentUser ann_fresh = Some ''ann'' \<and> userData ann_fresh \<noteq> None \<and> chats ann_fresh = []
       \<and> currentUser bob_fresh = Some ''bob'' \<and> userData bob_fresh \<noteq> None \<and> chats bob_fresh = []
       \<and> (\<forall>i. always i) \<and> (\<forall>i. always i)"
    using a b k(2) k(2) by (intro conjI)
  note T3 = T [THEN conjunct2, THEN conjunct2, THEN conjunct1, THEN mp, OF h3, unfolded j]
  note T4 = T [THEN conjunct2, THEN conjunct2, THEN conjunct2, THEN mp, OF h4, unfolded j]
  show ?thesis
    by (intro conjI i j a b T3 T4)
qed


section \<open>Properties of the user directory search\<close>

lemma prefix_first_insert:
  "sorted_wrt (prefix_first t) xs \<Longrightarrow>
   sorted_wrt (prefix_first t) (insert_by (relevance lc t) x xs)"
proof (induction xs)
  case Nil
  then show ?case by simp
next
  case (Cons y ys)
  show ?case
  proof (cases "relevance lc t x y \<le> 0")
    case True
    then have xy: "prefix_first t x y"
      by (auto simp: relevance_def prefix_first_def split: if_splits)
    moreover have "prefix_first t x z" if "z \<in> set ys" for z
      using xy Cons.prems that by (auto simp: prefix_first_def)
    ultimately show ?thesis using True Cons.prems by simp
  next
    case False
    then have "prefix_first t y x"
      by (auto simp: relevance_def prefix_first_def split: if_splits)
    with False Cons show ?thesis by (auto simp: set_insert_by)
  qed
qed

lemma prefix_first_sort_by: "sorted_wrt (prefix_first t) (sort_by (relevance lc t) xs)"
  by (induction xs) (simp_all add: prefix_first_insert)

lemma relevance_le:
  "(relevance lc t a b \<le> 0) =
     ((starts_with_term t a \<and> \<not> starts_with_term t b) \<or>
      (starts_with_term t a = starts_with_term t b \<and>
       lc (lower_or_empty (doc_displayName (snd a)))
          (lower_or_empty (doc_displayName (snd b))) \<le> 0))"
  by (simp add: relevance_def)

lemma relevance_total:
  assumes "collation lc"
  shows "relevance lc t a b \<le> 0 \<or> relevance lc t b a \<le> 0"
proof -
  from assms have "lc x y \<le> 0 \<or> lc y x \<le> 0" for x y
    unfolding collation_def by blast
  from this [of "lower_or_empty (doc_displayName (snd a))"
      "lower_or_empty (doc_displayName (snd b))"]
  show ?thesis unfolding relevance_le by blast
qed

lemma relevance_trans:
  assumes "collation lc" and "relevance lc t a b \<le> 0" and "relevance lc t b c \<le> 0"
  shows "relevance lc t a c \<le> 0"
proof -
  from assms(1) have "lc x y \<le> 0 \<Longrightarrow> lc y z \<le> 0 \<Longrightarrow> lc x z \<le> 0" for x y z
    unfolding collation_def by blast
  from this [of "lower_or_empty (doc_displayName (snd a))"
      "lower_or_empty (doc_displayName (snd b))" "lower_or_empty (doc_displayName (snd c))"]
    assms(2,3)
  show ?thesis unfolding relevance_le by blast
qed

lemma relevance_ranks: "relevance lc t a b \<le> 0 \<Longrightarrow> ranks_before lc t a b"
  unfolding relevance_le ranks_before_def prefix_first_def by blast

lemma ranked_sort_by:
  assumes "collation lc"
  shows "sorted_wrt (ranks_before lc t) (sort_by (relevance lc t) xs)"
proof -
  have "sorted_wrt (\<lambda>a b. relevance lc t a b \<le> 0) (sort_by (relevance lc t) xs)"
    by (rule sorted_sort_by) (rule relevance_total [OF assms], rule relevance_trans [OF assms])
  then show ?thesis
    by (rule sorted_wrt_mono_rel [rotated]) (rule relevance_ranks)
qed

lemma searchUsers_shape:
  "\<exists>xs. fst (searchUsers lc ok q me ds us bs)
          = take 8 (sort_by (relevance lc (trim (toLowerCase q))) xs)"
proof -
  have "fst (searchUsers lc ok q me ds us bs) = []
        \<or> (\<exists>xs. fst (searchUsers lc ok q me ds us bs)
                  = take 8 (sort_by (relevance lc (trim (toLowerCase q))) xs))"
    unfolding searchUsers_def Let_def by (simp split: if_splits) blast
  moreover have "take 8 (sort_by (relevance lc (trim (toLowerCase q))) []) = []" by simp
  ultimately show ?thesis by metis
qed

lemma starts_ali:
  "starts_with_term ''ali'' alice" "\<not> starts_with_term ''ali'' bobA"
  "starts_with_term ''ali'' alina" "starts_with_term ''ali'' alix"
  by (simp_all add: starts_with_term_def alice_def bobA_def alina_def alix_def lower_or_empty_def
        lower_literals)

lemma collation_default_compare: "collation default_compare"
  unfolding collation_def default_compare_def
  using str_le_total str_le_trans str_le_refl
  by (auto split: if_splits)

lemma length_insert_by: "length (insert_by cmp x xs) = Suc (length xs)"
  by (induction xs) simp_all

lemma length_sort_by: "length (sort_by cmp xs) = length xs"
  by (induction xs) (simp_all add: length_insert_by)

lemma set_sort_by: "set (sort_by cmp xs) = set xs"
  by (induction xs) (simp_all add: set_insert_by)

lemma mem_map_set: "x \<in> set (map_set k v xs) \<Longrightarrow> snd x = v \<or> x \<in> set xs"
  by (induction xs) (auto split: if_splits)

lemma values_map_set: "snd ` set (map_set k v xs) \<subseteq> insert v (snd ` set xs)"
  using mem_map_set [of _ k v xs] by (auto simp: image_iff)

lemma collect_keys:
  "fst ` set (collect keep snap r) = fst ` set r \<union> fst ` {d \<in> set snap. keep d}"
proof (induction snap arbitrary: r)
  case Nil
  then show ?case by (simp add: collect_def)
next
  case (Cons d snap)
  have step: "collect keep (d # snap) r
      = collect keep snap (if keep d then map_set (fst d) d r else r)"
    by (simp add: collect_def)
  show ?case unfolding step Cons.IH
    by (auto simp: keys_map_set)
qed

lemma collect_values:
  "snd ` set (collect keep snap r) \<subseteq> snd ` set r \<union> {d \<in> set snap. keep d}"
proof (induction snap arbitrary: r)
  case Nil
  then show ?case by (simp add: collect_def)
next
  case (Cons d snap)
  have step: "collect keep (d # snap) r
      = collect keep snap (if keep d then map_set (fst d) d r else r)"
    by (simp add: collect_def)
  show ?case
  proof (cases "keep d")
    case True
    have "snd ` set (collect keep (d # snap) r)
          \<subseteq> snd ` set (map_set (fst d) d r) \<union> {d \<in> set snap. keep d}"
      unfolding step using True Cons.IH [of "map_set (fst d) d r"] by simp
    also have "\<dots> \<subseteq> insert d (snd ` set r) \<union> {d \<in> set snap. keep d}"
      using values_map_set [of "fst d" d r] by blast
    also have "\<dots> \<subseteq> snd ` set r \<union> {x \<in> set (d # snap). keep x}"
      using True by auto
    finally show ?thesis .
  next
    case False
    then show ?thesis unfolding step using Cons.IH [of r] by auto
  qed
qed

lemma searchUsers_found:
  assumes "trim q \<noteq> []" and "ok 0" and "ok 1"
      and "range_found me (trim (toLowerCase q)) ds us \<noteq> [] \<or> ok 2"
  shows "searchUsers lc ok q me ds us bs =
           (take 8 (sort_by (relevance lc (trim (toLowerCase q)))
                      (map snd (candidates me (trim (toLowerCase q)) ds us bs))), Completed)"
proof -
  have k: "(\<lambda>d. Some (fst d) \<noteq> me \<and> opt_includes (doc_displayName (snd d)) t) = keep_by_name me t"
    "(\<lambda>d. Some (fst d) \<noteq> me \<and> opt_includes (doc_username (snd d)) t) = keep_by_username me t"
    "(\<lambda>d. Some (fst d) \<noteq> me \<and>
          (includes_str (lower_or_empty (doc_displayName (snd d))) t \<or>
           includes_str (lower_or_empty (doc_username (snd d))) t \<or>
           includes_str (lower_or_empty (doc_email (snd d))) t)) = keep_by_scan me t" for t
    by (simp_all add: keep_by_name_def keep_by_username_def keep_by_scan_def fun_eq_iff)
  show ?thesis
    using assms
    by (auto simp: searchUsers_def Let_def k candidates_def range_found_def numeral_2_eq_2)
qed

lemma opt_includes_lower: "opt_includes x t \<Longrightarrow> includes_str (lower_or_empty x) t"
  by (cases x) (simp_all add: opt_includes_def lower_or_empty_def)

lemma kept_by_scan:
  "keep_by_name me t d \<Longrightarrow> keep_by_scan me t d"
  "keep_by_username me t d \<Longrightarrow> keep_by_scan me t d"
  by (simp_all add: keep_by_name_def keep_by_username_def keep_by_scan_def opt_includes_lower)

lemma range_found_kept:
  assumes "d \<in> snd ` set (range_found me t ds us)"
  shows "keep_by_scan me t d"
proof -
  have "snd ` set (range_found me t ds us)
        \<subseteq> snd ` set (collect (keep_by_name me t) ds []) \<union> {d \<in> set us. keep_by_username me t d}"
    unfolding range_found_def by (rule collect_values)
  moreover have "snd ` set (collect (keep_by_name me t) ds [])
        \<subseteq> snd ` set ([] :: (uid \<times> found_user) list) \<union> {d \<in> set ds. keep_by_name me t d}"
    by (rule collect_values)
  ultimately have "keep_by_name me t d \<or> keep_by_username me t d"
    using assms by auto
  then show ?thesis using kept_by_scan by blast
qed

lemma candidates_kept:
  assumes "d \<in> snd ` set (candidates me t ds us bs)"
  shows "keep_by_scan me t d"
proof (cases "length (range_found me t ds us) = 0")
  case True
  have "snd ` set (collect (keep_by_scan me t) bs (range_found me t ds us))
        \<subseteq> snd ` set (range_found me t ds us) \<union> {d \<in> set bs. keep_by_scan me t d}"
    by (rule collect_values)
  with assms True show ?thesis by (auto simp: candidates_def)
next
  case False
  with assms show ?thesis by (simp add: candidates_def range_found_kept)
qed

lemma searchUsers_cases:
  "fst (searchUsers lc ok q me ds us bs) = []
   \<or> fst (searchUsers lc ok q me ds us bs)
       = take 8 (sort_by (relevance lc (trim (toLowerCase q)))
                   (map snd (candidates me (trim (toLowerCase q)) ds us bs)))"
proof (cases "trim q \<noteq> [] \<and> ok 0 \<and> ok 1 \<and>
              (range_found me (trim (toLowerCase q)) ds us \<noteq> [] \<or> ok 2)")
  case True
  then show ?thesis using searchUsers_found [of q ok me ds us lc bs] by simp
next
  case False
  have k: "(\<lambda>d. Some (fst d) \<noteq> me \<and> opt_includes (doc_displayName (snd d)) t) = keep_by_name me t"
    "(\<lambda>d. Some (fst d) \<noteq> me \<and> opt_includes (doc_username (snd d)) t) = keep_by_username me t" for t
    by (simp_all add: keep_by_name_def keep_by_username_def fun_eq_iff)
  from False have "fst (searchUsers lc ok q me ds us bs) = []"
    by (auto simp: searchUsers_def Let_def k range_found_def)
  then show ?thesis ..
qed

lemma searchUsers_kept:
  assumes "u \<in> set (fst (searchUsers lc ok q me ds us bs))"
  shows "keep_by_scan me (trim (toLowerCase q)) u"
proof -
  from assms searchUsers_cases [of lc ok q me ds us bs]
  have "u \<in> set (take 8 (sort_by (relevance lc (trim (toLowerCase q)))
                   (map snd (candidates me (trim (toLowerCase q)) ds us bs))))"
    by auto
  then have "u \<in> set (sort_by (relevance lc (trim (toLowerCase q)))
                   (map snd (candidates me (trim (toLowerCase q)) ds us bs)))"
    by (rule in_set_takeD)
  then have "u \<in> snd ` set (candidates me (trim (toLowerCase q)) ds us bs)"
    by (simp add: set_sort_by)
  then show ?thesis by (rule candidates_kept)
qed

lemma ranks_lexicographic:
  "ranks_before default_compare t a b \<Longrightarrow> lexicographic_ties t a b"
  by (auto simp: ranks_before_def lexicographic_ties_def default_compare_def str_le_refl
      split: if_splits)

lemma directory_ids:
  "fst alice = ''u1''" "fst bobA = ''u2''" "fst alina = ''u3''" "fst alix = ''u4''"
  "fst alice_smith = ''u5''" "fst zoeA = ''u6''" "fst zoe = ''u7''" "fst amy = ''u8''"
  "fst ali_khan = ''u9''"
  by (simp_all add: alice_def bobA_def alina_def alix_def alice_smith_def zoeA_def zoe_def
        amy_def ali_khan_def)

lemma directory_displayNames:
  "doc_displayName (snd alice) = Some ''Alice Smith''"
  "doc_displayName (snd bobA) = Some ''Bob Alison''"
  "doc_displayName (snd alina) = Some ''Alina Berg''"
  "doc_displayName (snd alix) = Some ''Alix Roy''"
  "doc_displayName (snd alice_smith) = Some ''Alice Smith''"
  "doc_displayName (snd zoeA) = Some ''Zoe Alia''"
  "doc_displayName (snd zoe) = Some ''Zoe Malik''"
  "doc_displayName (snd amy) = Some ''amy malik''"
  "doc_displayName (snd ali_khan) = Some ''ali khan''"
  by (simp_all add: alice_def bobA_def alina_def alix_def alice_smith_def zoeA_def zoe_def
        amy_def ali_khan_def)

lemma directory_usernames:
  "doc_username (snd alice) = Some ''alice''"
  "doc_username (snd bobA) = Some ''bobA''"
  "doc_username (snd alina) = None"
  "doc_username (snd alix) = None"
  "doc_username (snd alice_smith) = None"
  "doc_username (snd zoeA) = Some ''alia''"
  "doc_username (snd zoe) = None"
  "doc_username (snd amy) = None"
  "doc_username (snd ali_khan) = None"
  by (simp_all add: alice_def bobA_def alina_def alix_def alice_smith_def zoeA_def zoe_def
        amy_def ali_khan_def)

lemma directory_emails:
  "doc_email (snd alice) = Some ''alice@example.org''"
  "doc_email (snd bobA) = Some ''bob@example.org''"
  "doc_email (snd alina) = None"
  "doc_email (snd alix) = None"
  "doc_email (snd alice_smith) = Some ''alice@example.org''"
  "doc_email (snd zoeA) = None"
  "doc_email (snd zoe) = None"
  "doc_email (snd amy) = None"
  "doc_email (snd ali_khan) = None"
  by (simp_all add: alice_def bobA_def alina_def alix_def alice_smith_def zoeA_def zoe_def
        amy_def ali_khan_def)

lemmas directory_fields = directory_ids directory_displayNames directory_usernames
  directory_emails

lemma starts_directory:
  "starts_with_term ''ali'' alice_smith" "starts_with_term ''ali'' zoeA"
  "starts_with_term ''ali'' ali_khan"
  "\<not> starts_with_term ''mal'' zoe" "\<not> starts_with_term ''mal'' amy"
  by (simp_all add: starts_with_term_def lower_or_empty_def directory_fields lower_literals
        lower_literals2)

lemma spec_directory_queries:
  "displayNameQuery ''ali'' [alice, bobA] = []"
  "usernameQuery ''ali'' [alice, bobA] = [alice]"
  "broadQuery [alice, bobA] = [alice, bobA]"
  by (simp_all add: displayNameQuery_def usernameQuery_def broadQuery_def range_query_def
        directory_fields)

lemma spec_directory_candidates:
  "range_found (Some ''u0'') ''ali'' [] [alice] = [(''u1'', alice)]"
  "candidates (Some ''u0'') ''ali'' [] [alice] [alice, bobA] = [(''u1'', alice)]"
  by (simp_all add: candidates_def range_found_def collect_def keep_by_name_def
        keep_by_username_def opt_includes_def directory_fields lower_literals)

lemma scan_directory_queries:
  "displayNameQuery ''ali'' [bobA, alice_smith] = []"
  "usernameQuery ''ali'' [bobA, alice_smith] = []"
  "broadQuery [bobA, alice_smith] = [bobA, alice_smith]"
  by (simp_all add: displayNameQuery_def usernameQuery_def broadQuery_def range_query_def
        directory_fields)

lemma scan_directory_candidates:
  "candidates (Some ''u0'') ''ali'' [] [] [bobA, alice_smith]
     = [(''u2'', bobA), (''u5'', alice_smith)]"
  by (simp add: candidates_def range_found_def collect_def keep_by_scan_def
        lower_or_empty_def directory_fields lower_literals)

lemma malik_directory_queries:
  "displayNameQuery ''mal'' [zoe, amy] = []"
  "usernameQuery ''mal'' [zoe, amy] = []"
  "broadQuery [zoe, amy] = [zoe, amy]"
  by (simp_all add: displayNameQuery_def usernameQuery_def broadQuery_def range_query_def
        directory_fields)

lemma malik_directory_candidates:
  "candidates (Some ''u0'') ''mal'' [] [] [zoe, amy] = [(''u7'', zoe), (''u8'', amy)]"
  by (simp add: candidates_def range_found_def collect_def keep_by_scan_def
        lower_or_empty_def directory_fields lower_literals2)

lemma malik_sorted:
  "sort_by (relevance default_compare ''mal'') [zoe, amy] = [amy, zoe]"
  by (simp add: relevance_def starts_directory lower_or_empty_def directory_fields
        lower_literals2 default_compare_def)

text \<open>
  C8. The claim: ties are broken by the lexicographic order of the display names. Zoe Malik
  and amy malik are both found for the query \<^verbatim>\<open>mal\<close> by the fallback scan, neither by a
  prefix. Of the display names as stored, \<^verbatim>\<open>Zoe Malik\<close> is the first (\<^verbatim>\<open>Z\<close> is before
  \<^verbatim>\<open>a\<close>); the comparator compares the lower-cased names, \<^verbatim>\<open>amy malik\<close> and
  \<^verbatim>\<open>zoe malik\<close>, and the result has amy malik first.
\<close>

theorem searchUsers_tie_order_counterexample:
  "searchDirectory default_compare always ''mal'' (Some ''u0'') [zoe, amy] = ([amy, zoe], Completed)
   \<and> \<not> starts_with_term ''mal'' zoe \<and> \<not> starts_with_term ''mal'' amy
   \<and> doc_displayName (snd zoe) = Some ''Zoe Malik''
   \<and> doc_displayName (snd amy) = Some ''amy malik''
   \<and> display_name_le zoe amy \<and> \<not> display_name_le amy zoe"
proof -
  have t: "trim (toLowerCase ''mal'') = ''mal''"
    by (simp add: lower_literals2 trim_mal)
  have "searchDirectory default_compare always ''mal'' (Some ''u0'') [zoe, amy]
        = ([amy, zoe], Completed)"
    unfolding searchDirectory_def t malik_directory_queries
    by (subst searchUsers_found)
       (simp_all add: trim_mal always_def t malik_directory_candidates malik_sorted
          del: sort_by.simps)
  moreover have "display_name_le zoe amy" "\<not> display_name_le amy zoe"
    by (simp_all add: display_name_le_def directory_fields)
  ultimately show ?thesis
    by (simp add: starts_directory directory_displayNames)
qed

lemma range_directory_queries:
  "displayNameQuery ''ali'' [alice, bobA, zoeA, ali_khan] = [ali_khan]"
  "usernameQuery ''ali'' [alice, bobA, zoeA, ali_khan] = [zoeA, alice]"
  "broadQuery [alice, bobA, zoeA, ali_khan] = [alice, bobA, zoeA, ali_khan]"
  by (simp_all add: displayNameQuery_def usernameQuery_def broadQuery_def range_query_def
        directory_fields field_value_def default_compare_def)

lemma range_directory_candidates:
  "range_found (Some ''u0'') ''ali'' [ali_khan] [zoeA, alice]
     = [(''u9'', ali_khan), (''u6'', zoeA), (''u1'', alice)]"
  "candidates (Some ''u0'') ''ali'' [ali_khan] [zoeA, alice] [alice, bobA, zoeA, ali_khan]
     = [(''u9'', ali_khan), (''u6'', zoeA), (''u1'', alice)]"
  by (simp_all add: candidates_def range_found_def collect_def keep_by_name_def
        keep_by_username_def opt_includes_def directory_fields lower_literals lower_literals2)

lemma range_directory_sorted:
  "sort_by (relevance default_compare ''ali'') [ali_khan, zoeA, alice] = [ali_khan, alice, zoeA]"
  by (simp add: relevance_def starts_directory starts_ali lower_or_empty_def directory_fields
        lower_literals lower_literals2 default_compare_def)

lemma fallback_directory_queries:
  "displayNameQuery ''ali'' [bobA, alina, alix] = []"
  "usernameQuery ''ali'' [bobA, alina, alix] = []"
  "broadQuery [bobA, alina, alix] = [bobA, alina, alix]"
  by (simp_all add: displayNameQuery_def usernameQuery_def broadQuery_def range_query_def
        directory_fields)

lemma fallback_directory_candidates:
  "range_found (Some ''u0'') ''ali'' [] [] = []"
  "candidates (Some ''u0'') ''ali'' [] [] [bobA, alina, alix]
     = [(''u2'', bobA), (''u3'', alina), (''u4'', alix)]"
  by (simp_all add: candidates_def range_found_def collect_def keep_by_scan_def
        lower_or_empty_def directory_fields lower_literals)

lemma fallback_directory_sorted:
  "sort_by (relevance default_compare ''ali'') [bobA, alina, alix] = [alina, alix, bobA]"
  by (simp add: relevance_def starts_ali lower_or_empty_def directory_fields
        lower_literals default_compare_def)

lemma prefix_first_index:
  assumes s: "sorted_wrt (prefix_first t) xs"
      and h: "i < length xs \<and> j < length xs \<and> starts_with_term t (xs ! i)
              \<and> \<not> starts_with_term t (xs ! j)"
  shows "i < j"
proof (rule ccontr)
  assume "\<not> i < j"
  moreover from h have "i \<noteq> j" by auto
  ultimately have "j < i" by simp
  from sorted_wrt_nth_less [OF s this] h have "prefix_first t (xs ! j) (xs ! i)" by simp
  with h show False by (simp add: prefix_first_def)
qed

text \<open>
  C8, amended. \<^verbatim>\<open>searchUsers\<close> returns at most 8 results, ordered so that every user whose
  display name or username starts with the query precedes every user matched only by
  non-prefix substring, with ties broken by the collation of the host applied to the
  lower-cased display names (for a collation that is a total preorder; for the collation
  by code units this is the lexicographic order of the lower-cased display names, not of
  the display names as stored). When the requests are accepted the result is the first 8,
  in that order, of the users found: those of the two range queries, or, only when these
  found nobody, those of the fallback scan; every returned user is another user than the
  current one, with the query in the lower-cased display name, username or email. For
  example, for the query \<^verbatim>\<open>ali\<close> the comparator puts Alice Smith before Bob Alison. Over
  the directory of Alice Smith (username \<^verbatim>\<open>alice\<close>) and Bob Alison (username \<^verbatim>\<open>bobA\<close>)
  the username range query finds Alice Smith, the scan does not run, and the result is
  Alice Smith alone; over a directory where Alice Smith has no username both are found by
  the scan and the result is Alice Smith, Bob Alison.
\<close>

theorem searchUsers_ranking:
  "length (fst (searchUsers lc ok q me ds us bs)) \<le> 8
   \<and> sorted_wrt (prefix_first (trim (toLowerCase q))) (fst (searchUsers lc ok q me ds us bs))
   \<and> (\<forall>i j. i < length (fst (searchUsers lc ok q me ds us bs))
            \<and> j < length (fst (searchUsers lc ok q me ds us bs))
            \<and> starts_with_term (trim (toLowerCase q)) (fst (searchUsers lc ok q me ds us bs) ! i)
            \<and> \<not> starts_with_term (trim (toLowerCase q)) (fst (searchUsers lc ok q me ds us bs) ! j)
            \<longrightarrow> i < j)
   \<and> (collation lc \<longrightarrow>
        sorted_wrt (ranks_before lc (trim (toLowerCase q)))
          (fst (searchUsers lc ok q me ds us bs)))
   \<and> sorted_wrt (lexicographic_ties (trim (toLowerCase q)))
        (fst (searchUsers default_compare ok q me ds us bs))
   \<and> (trim q \<noteq> [] \<and> ok 0 \<and> ok 1
        \<and> (range_found me (trim (toLowerCase q)) ds us \<noteq> [] \<or> ok 2) \<longrightarrow>
        searchUsers lc ok q me ds us bs
          = (take 8 (sort_by (relevance lc (trim (toLowerCase q)))
                       (map snd (candidates me (trim (toLowerCase q)) ds us bs))), Completed))
   \<and> (\<forall>u \<in> set (fst (searchUsers lc ok q me ds us bs)).
        keep_by_scan me (trim (toLowerCase q)) u)
   \<and> relevance lc ''ali'' alice bobA < 0
   \<and> searchDirectory lc always ''ali'' (Some ''u0'') [alice, bobA] = ([alice], Completed)
   \<and> searchDirectory lc always ''ali'' (Some ''u0'') [bobA, alice_smith]
       = ([alice_smith, bobA], Completed)"
proof -
  obtain xs where xs: "fst (searchUsers lc ok q me ds us bs)
      = take 8 (sort_by (relevance lc (trim (toLowerCase q))) xs)"
    using searchUsers_shape by blast
  obtain ys where ys: "fst (searchUsers default_compare ok q me ds us bs)
      = take 8 (sort_by (relevance default_compare (trim (toLowerCase q))) ys)"
    using searchUsers_shape by blast
  have 1: "length (fst (searchUsers lc ok q me ds us bs)) \<le> 8"
    by (simp add: xs)
  have 2: "sorted_wrt (prefix_first (trim (toLowerCase q))) (fst (searchUsers lc ok q me ds us bs))"
    unfolding xs by (rule sorted_wrt_take) (rule prefix_first_sort_by)
  have 3: "\<forall>i j. i < length (fst (searchUsers lc ok q me ds us bs))
            \<and> j < length (fst (searchUsers lc ok q me ds us bs))
            \<and> starts_with_term (trim (toLowerCase q)) (fst (searchUsers lc ok q me ds us bs) ! i)
            \<and> \<not> starts_with_term (trim (toLowerCase q)) (fst (searchUsers lc ok q me ds us bs) ! j)
            \<longrightarrow> i < j"
    using prefix_first_index [OF 2] by blast
  have 4: "collation lc \<longrightarrow> sorted_wrt (ranks_before lc (trim (toLowerCase q)))
          (fst (searchUsers lc ok q me ds us bs))"
    unfolding xs by (rule impI, rule sorted_wrt_take) (rule ranked_sort_by)
  have "sorted_wrt (ranks_before default_compare (trim (toLowerCase q)))
          (fst (searchUsers default_compare ok q me ds us bs))"
    unfolding ys by (rule sorted_wrt_take) (rule ranked_sort_by [OF collation_default_compare])
  then have 5: "sorted_wrt (lexicographic_ties (trim (toLowerCase q)))
        (fst (searchUsers default_compare ok q me ds us bs))"
    by (rule sorted_wrt_mono_rel [rotated]) (rule ranks_lexicographic)
  have 6: "trim q \<noteq> [] \<and> ok 0 \<and> ok 1
        \<and> (range_found me (trim (toLowerCase q)) ds us \<noteq> [] \<or> ok 2) \<longrightarrow>
        searchUsers lc ok q me ds us bs
          = (take 8 (sort_by (relevance lc (trim (toLowerCase q)))
                       (map snd (candidates me (trim (toLowerCase q)) ds us bs))), Completed)"
    using searchUsers_found [of q ok me ds us lc bs] by blast
  have 7: "\<forall>u \<in> set (fst (searchUsers lc ok q me ds us bs)).
        keep_by_scan me (trim (toLowerCase q)) u"
    using searchUsers_kept by blast
  have 8: "relevance lc ''ali'' alice bobA < 0"
    by (simp add: relevance_def starts_ali)
  have t: "trim (toLowerCase ''ali'') = ''ali''"
    by (simp add: lower_literals trim_ali)
  have 9: "searchDirectory lc always ''ali'' (Some ''u0'') [alice, bobA] = ([alice], Completed)"
    unfolding searchDirectory_def t spec_directory_queries
    by (subst searchUsers_found)
       (simp_all add: trim_ali always_def t spec_directory_candidates)
  have 10: "searchDirectory lc always ''ali'' (Some ''u0'') [bobA, alice_smith]
       = ([alice_smith, bobA], Completed)"
    unfolding searchDirectory_def t scan_directory_queries
    by (subst searchUsers_found)
       (simp_all add: trim_ali always_def t scan_directory_candidates relevance_def
          starts_ali starts_directory)
  show ?thesis
    by (intro conjI 1 2 3 4 5 6 7 8 9 10)
qed

theorem searchUsers_ranking_witness:
  "collation default_compare
   \<and> displayNameQuery ''ali'' [alice, bobA, zoeA, ali_khan] = [ali_khan]
   \<and> usernameQuery ''ali'' [alice, bobA, zoeA, ali_khan] = [zoeA, alice]
   \<and> searchUsers default_compare always ''Ali '' (Some ''u0'')
         [ali_khan] [zoeA, alice] [alice, bobA, zoeA, ali_khan]
       = ([ali_khan, alice, zoeA], Completed)
   \<and> sorted_wrt (ranks_before default_compare ''ali'') [ali_khan, alice, zoeA]
   \<and> sorted_wrt (lexicographic_ties ''ali'') [ali_khan, alice, zoeA]
   \<and> keep_by_scan (Some ''u0'') ''ali'' zoeA
   \<and> displayNameQuery ''ali'' [bobA, alina, alix] = []
   \<and> usernameQuery ''ali'' [bobA, alina, alix] = []
   \<and> searchUsers default_compare always ''Ali '' (Some ''u0'') [] [] [bobA, alina, alix]
       = ([alina, alix, bobA], Completed)
   \<and> sorted_wrt (prefix_first ''ali'') [alina, alix, bobA]
   \<and> starts_with_term ''ali'' ([alina, alix, bobA] ! 1)
   \<and> \<not> starts_with_term ''ali'' ([alina, alix, bobA] ! 2)
   \<and> (1 :: nat) < 2"
proof -
  have t: "trim (toLowerCase ''Ali '') = ''ali''"
    by (simp add: lower_literals trim_ali)
  have q: "trim ''Ali '' \<noteq> []"
    by (simp add: trim_ali)
  note R = searchUsers_ranking [where lc = default_compare and ok = always
      and q = "''Ali ''" and me = "Some ''u0''" and ds = "[ali_khan]" and us = "[zoeA, alice]"
      and bs = "[alice, bobA, zoeA, ali_khan]"]
  have hr: "trim ''Ali '' \<noteq> [] \<and> always 0 \<and> always 1
        \<and> (range_found (Some ''u0'') (trim (toLowerCase ''Ali '')) [ali_khan] [zoeA, alice] \<noteq> []
           \<or> always 2)"
    using q by (simp add: always_def)
  note r = R [THEN conjunct2, THEN conjunct2, THEN conjunct2, THEN conjunct2, THEN conjunct2,
      THEN conjunct1, THEN mp, OF hr, unfolded t range_directory_candidates
      range_directory_sorted]
  have r': "searchUsers default_compare always ''Ali '' (Some ''u0'')
         [ali_khan] [zoeA, alice] [alice, bobA, zoeA, ali_khan]
       = ([ali_khan, alice, zoeA], Completed)"
    using r by (simp add: range_directory_sorted del: sort_by.simps)
  have fr: "fst (searchUsers default_compare always ''Ali '' (Some ''u0'')
         [ali_khan] [zoeA, alice] [alice, bobA, zoeA, ali_khan]) = [ali_khan, alice, zoeA]"
    by (simp add: r')
  note r4 = R [THEN conjunct2, THEN conjunct2, THEN conjunct2, THEN conjunct1, THEN mp,
      OF collation_default_compare, unfolded fr t]
  note r5 = R [THEN conjunct2, THEN conjunct2, THEN conjunct2, THEN conjunct2, THEN conjunct1,
      unfolded fr t]
  note r7 = R [THEN conjunct2, THEN conjunct2, THEN conjunct2, THEN conjunct2, THEN conjunct2,
      THEN conjunct2, THEN conjunct1, unfolded fr t]
  have k: "keep_by_scan (Some ''u0'') ''ali'' zoeA"
    using r7 by simp
  note F = searchUsers_ranking [where lc = default_compare and ok = always
      and q = "''Ali ''" and me = "Some ''u0''" and ds = "[]" and us = "[]"
      and bs = "[bobA, alina, alix]"]
  have hf: "trim ''Ali '' \<noteq> [] \<and> always 0 \<and> always 1
        \<and> (range_found (Some ''u0'') (trim (toLowerCase ''Ali '')) [] [] \<noteq> [] \<or> always 2)"
    using q by (simp add: always_def)
  note f = F [THEN conjunct2, THEN conjunct2, THEN conjunct2, THEN conjunct2, THEN conjunct2,
      THEN conjunct1, THEN mp, OF hf, unfolded t fallback_directory_candidates
      fallback_directory_sorted]
  have f': "searchUsers default_compare always ''Ali '' (Some ''u0'') [] [] [bobA, alina, alix]
       = ([alina, alix, bobA], Completed)"
    using f by (simp add: fallback_directory_sorted del: sort_by.simps)
  have ff: "fst (searchUsers default_compare always ''Ali '' (Some ''u0'') [] []
         [bobA, alina, alix]) = [alina, alix, bobA]"
    by (simp add: f')
  note f2 = F [THEN conjunct2, THEN conjunct1, unfolded ff t]
  have s1: "starts_with_term ''ali'' ([alina, alix, bobA] ! 1)"
    and s2: "\<not> starts_with_term ''ali'' ([alina, alix, bobA] ! 2)"
    by (simp_all add: starts_ali)
  have hi: "1 < length [alina, alix, bobA] \<and> 2 < length [alina, alix, bobA]
      \<and> starts_with_term ''ali'' ([alina, alix, bobA] ! 1)
      \<and> \<not> starts_with_term ''ali'' ([alina, alix, bobA] ! 2)"
    using s1 s2 by simp
  note f3 = F [THEN conjunct2, THEN conjunct2, THEN conjunct1, unfolded ff t, rule_format,
      OF hi]
  show ?thesis
    by (intro conjI collation_default_compare range_directory_queries(1,2) r' r4 r5 k
        fallback_directory_queries(1,2) f' f2 s1 s2 f3)
qed

end
